theory Spec2Isabelle
  imports Complex_Main "HOL-Library.Char_ord" "HOL-Library.List_Lexorder" "HOL-Library.AList"
begin

unbundle bit_operations_syntax

section \<open>Python values: exceptions, strings, integers\<close>

text \<open>
  Every exception the parser can raise is a value. A function of the source that can
  raise returns \<open>error + 'a\<close>, with \<open>Inl\<close> for the exception.
\<close>

datatype error =
    Exception string
  | AssertionError
  | TypeError
  | ValueError
  | IndexError
  | KeyError
  | AttributeError
  | UnboundLocalError
  | External

text \<open>
  Strings are lists of characters with code points up to 255; the keys and numbers the
  parser inspects are all ASCII. White space is what \<open>str.isspace\<close> accepts in that range:
  tab, line feed, vertical tab, form feed and carriage return (9 to 13), the four
  separators 28 to 31, the space, the next-line character 133 and the no-break space 160.
\<close>

definition is_digit :: "char \<Rightarrow> bool" where
  "is_digit c = (48 \<le> (of_char c :: nat) \<and> (of_char c :: nat) \<le> 57)"

definition is_alpha :: "char \<Rightarrow> bool" where
  "is_alpha c = ((65 \<le> (of_char c :: nat) \<and> (of_char c :: nat) \<le> 90) \<or>
                 (97 \<le> (of_char c :: nat) \<and> (of_char c :: nat) \<le> 122))"

definition is_space :: "char \<Rightarrow> bool" where
  "is_space c = ((of_char c :: nat) = 32 \<or> (9 \<le> (of_char c :: nat) \<and> (of_char c :: nat) \<le> 13) \<or>
                 (28 \<le> (of_char c :: nat) \<and> (of_char c :: nat) \<le> 31) \<or>
                 (of_char c :: nat) = 133 \<or> (of_char c :: nat) = 160)"

definition strip :: "string \<Rightarrow> string" where
  "strip s = rev (dropWhile is_space (rev (dropWhile is_space s)))"

text \<open>\<open>s.split(c)[0]\<close>: the text before the first \<open>c\<close>, the whole of \<open>s\<close> without one.\<close>

definition split_head :: "char \<Rightarrow> string \<Rightarrow> string" where
  "split_head c s = takeWhile (\<lambda>d. d \<noteq> c) s"

definition digit_val :: "char \<Rightarrow> int" where
  "digit_val c = int (of_char c) - 48"

definition digits_val :: "string \<Rightarrow> int" where
  "digits_val s = foldl (\<lambda>a c. 10 * a + digit_val c) 0 s"

text \<open>
  The digits of a decimal literal: runs of digits, with single underscores between digits
  only.
\<close>

fun digit_groups :: "string \<Rightarrow> bool" where
  "digit_groups [] = False"
| "digit_groups [c] = is_digit c"
| "digit_groups (c # d # s) =
     (is_digit c \<and> (if d = CHR ''_'' then digit_groups s else digit_groups (d # s)))"

definition digits_int :: "string \<Rightarrow> int option" where
  "digits_int s =
     (if digit_groups s then Some (digits_val (filter (\<lambda>c. c \<noteq> CHR ''_'') s)) else None)"

text \<open>
  \<open>int(s)\<close> on text: surrounding white space is dropped, one sign is allowed, the rest
  is a decimal literal. \<open>None\<close> is the \<open>ValueError\<close>.
\<close>

definition py_int :: "string \<Rightarrow> int option" where
  "py_int s =
     (case strip s of
        [] \<Rightarrow> None
      | c # r \<Rightarrow>
          if c = CHR ''-'' then map_option uminus (digits_int r)
          else if c = CHR ''+'' then digits_int r
          else digits_int (c # r))"

text \<open>
  \<open>s.startswith(p)\<close>, \<open>sub in s\<close>, the split of \<open>s\<close> at the first \<open>sep\<close>
  (\<open>s.split(sep, 1)\<close> when \<open>sep\<close> occurs), \<open>s.split()\<close> on white space, and list
  indexing with Python's negative indices (\<open>None\<close> is the \<open>IndexError\<close>).
\<close>

definition starts_with :: "string \<Rightarrow> string \<Rightarrow> bool" where
  "starts_with s p = (take (length p) s = p)"

fun contains :: "string \<Rightarrow> string \<Rightarrow> bool" where
  "contains [] sub = (sub = [])"
| "contains (c # s) sub = (starts_with (c # s) sub \<or> contains s sub)"

fun split_once :: "string \<Rightarrow> string \<Rightarrow> (string \<times> string) option" where
  "split_once sep [] = None"
| "split_once sep (c # s) =
     (if starts_with (c # s) sep then Some ([], drop (length sep) (c # s))
      else (case split_once sep s of
              None \<Rightarrow> None
            | Some (a, b) \<Rightarrow> Some (c # a, b)))"

fun split_ws :: "string \<Rightarrow> string list" where
  "split_ws [] = [[]]"
| "split_ws (c # s) =
     (if is_space c then [] # split_ws s
      else (case split_ws s of
              [] \<Rightarrow> [[c]]
            | w # ws \<Rightarrow> (c # w) # ws))"

definition py_words :: "string \<Rightarrow> string list" where
  "py_words s = filter (\<lambda>w. w \<noteq> []) (split_ws s)"

definition py_index :: "'a list \<Rightarrow> int \<Rightarrow> 'a option" where
  "py_index xs i =
     (if 0 \<le> i \<and> i < int (length xs) then Some (xs ! nat i)
      else if i < 0 \<and> - int (length xs) \<le> i then Some (xs ! nat (int (length xs) + i))
      else None)"

text \<open>
  \<open>_getSection(data, i, end, value)\<close>: the lines from \<open>data[i]\<close> up to the first that starts
  with \<open>end\<close>, after the seed, and the index past that line. Running off the end of
  \<open>data\<close> is the \<open>IndexError\<close> of \<open>data[i]\<close>.
\<close>

function getSection :: "string list \<Rightarrow> int \<Rightarrow> string \<Rightarrow> string list \<Rightarrow> error + (string list \<times> int)" where
  "getSection data i end section =
     (case py_index data i of
        None \<Rightarrow> Inl IndexError
      | Some l \<Rightarrow>
          if starts_with l end then Inr (section, i + 1)
          else getSection data (i + 1) end (section @ [l]))"
  by pat_completeness auto
termination
  by (relation "measure (\<lambda>(data, i, e, s). nat (int (length data) - i))")
     (auto simp: py_index_def split: if_splits)

declare getSection.simps [simp del]

definition section_seed :: "string option \<Rightarrow> string list" where
  "section_seed v = (case v of None \<Rightarrow> [] | Some s \<Rightarrow> [s])"

lemma getSection_index:
  "getSection data i e s = Inr (sec, i') \<Longrightarrow> i < i'"
proof (induction data i e s rule: getSection.induct)
  case (1 data i e sect)
  show ?case
  proof (cases "py_index data i")
    case None
    with "1.prems" show ?thesis by (simp add: getSection.simps[of data i])
  next
    case (Some l)
    show ?thesis
    proof (cases "starts_with l e")
      case True
      with Some "1.prems" show ?thesis by (simp add: getSection.simps[of data i])
    next
      case False
      with Some "1.prems" have "getSection data (i + 1) e (sect @ [l]) = Inr (sec, i')"
        by (simp add: getSection.simps[of data i])
      from "1.IH"[OF Some False this] show ?thesis by simp
    qed
  qed
qed

section \<open>Drawing contours (\<open>_drawContours\<close>)\<close>

text \<open>
  A segment is the triple \<open>(pts, segmentType, flags)\<close> that \<open>_parseSplineSet\<close> files under
  a contour; a contour is its segments and the name a \<open>Named:\<close> line attached to it.
  Coordinates are the rationals (every finite float is one). The point pen receives, for
  each contour, the points \<open>(pt, segmentType, smooth)\<close>; the last two are \<open>None\<close> for a
  control point.
\<close>

type_synonym point = "rat \<times> rat"
type_synonym segment = "point list \<times> string \<times> string"
type_synonym contour = "segment list \<times> string option"
type_synonym upoint = "point \<times> string option \<times> bool option"

definition segment_flag :: "string \<Rightarrow> error + int" where
  "segment_flag flags =
     (case py_int (split_head CHR ''x'' (split_head CHR '','' flags)) of
        None \<Rightarrow> Inl ValueError
      | Some flag \<Rightarrow> Inr flag)"

definition offcurve :: "point \<Rightarrow> upoint" where
  "offcurve pt = (pt, None, None)"

text \<open>
  The body of the loop over the segments of one contour: whether the segment forces the
  path open, and the points it appends to \<open>ufoContour\<close>.
\<close>

definition draw_segment :: "bool \<Rightarrow> segment \<Rightarrow> error + (bool \<times> upoint list)" where
  "draw_segment quadratic seg =
     (case seg of (pts, segmentType, flags) \<Rightarrow>
       (case segment_flag flags of
          Inl e \<Rightarrow> Inl e
        | Inr flag \<Rightarrow>
           (let forceOpen = (flag AND 0x400 \<noteq> 0);
                smooth = (flag AND 0x3 \<noteq> 1)
            in if segmentType = ''m'' then
                 (case pts of
                    [] \<Rightarrow> Inl IndexError
                  | p # _ \<Rightarrow> Inr (forceOpen, [(p, Some ''move'', Some smooth)]))
               else if segmentType = ''l'' then
                 (case pts of
                    [] \<Rightarrow> Inl IndexError
                  | p # _ \<Rightarrow> Inr (forceOpen, [(p, Some ''line'', Some smooth)]))
               else if quadratic then
                 (case pts of
                    p0 # p1 # rest \<Rightarrow>
                      if p0 \<noteq> p1 then Inl AssertionError
                      else if flag AND 0x80 \<noteq> 0 then
                        Inr (forceOpen, map offcurve (p1 # rest))
                      else
                        Inr (forceOpen, map offcurve (butlast (p1 # rest)) @
                                        [(last (p1 # rest), Some ''qcurve'', Some smooth)])
                  | _ \<Rightarrow> Inl IndexError)
               else
                 (case pts of
                    [] \<Rightarrow> Inl IndexError
                  | _ \<Rightarrow> Inr (forceOpen, map offcurve (butlast pts) @
                                        [(last pts, Some ''curve'', Some smooth)])))))"

fun draw_segments :: "bool \<Rightarrow> segment list \<Rightarrow> error + (bool \<times> upoint list)" where
  "draw_segments quadratic [] = Inr (False, [])"
| "draw_segments quadratic (seg # segs) =
     (case draw_segment quadratic seg of
        Inl e \<Rightarrow> Inl e
      | Inr (f, ps) \<Rightarrow>
         (case draw_segments quadratic segs of
            Inl e \<Rightarrow> Inl e
          | Inr (f', ps') \<Rightarrow> Inr (f \<or> f', ps @ ps')))"

text \<open>
  ``Closed path'': \<open>ufoContour[0] = ufoContour[-1]\<close>, then \<open>ufoContour.pop()\<close>, under the
  guard of the source. A contour of \<open>_parseSplineSet\<close> opens with the segment that
  created it, so \<open>contour[-1]\<close> always exists; the \<open>IndexError\<close> of that test on a list
  with no segment and no name is not part of \<open>draw_contour\<close>.
\<close>

definition close_path :: "bool \<Rightarrow> upoint list \<Rightarrow> upoint list" where
  "close_path forceOpen ufoContour =
     (if \<not> forceOpen \<and> (length ufoContour > 1 \<and> fst (hd ufoContour) = fst (last ufoContour))
      then butlast (ufoContour[0 := last ufoContour])
      else ufoContour)"

definition draw_contour :: "bool \<Rightarrow> contour \<Rightarrow> error + upoint list" where
  "draw_contour quadratic contour =
     (case draw_segments quadratic (fst contour) of
        Inl e \<Rightarrow> Inl e
      | Inr (forceOpen, ufoContour) \<Rightarrow> Inr (close_path forceOpen ufoContour))"

text \<open>The contours the pen receives between \<open>beginPath\<close> and \<open>endPath\<close>, in order.\<close>

fun drawContours :: "bool \<Rightarrow> contour list \<Rightarrow> error + upoint list list" where
  "drawContours quadratic [] = Inr []"
| "drawContours quadratic (c # cs) =
     (case draw_contour quadratic c of
        Inl e \<Rightarrow> Inl e
      | Inr u \<Rightarrow>
         (case drawContours quadratic cs of
            Inl e \<Rightarrow> Inl e
          | Inr us \<Rightarrow> Inr (u # us)))"

text \<open>A path is open for the point pen when its first point is a \<open>move\<close>.\<close>

definition is_open :: "upoint list \<Rightarrow> bool" where
  "is_open c = (case c of [] \<Rightarrow> False | p # _ \<Rightarrow> fst (snd p) = Some ''move'')"

section \<open>Font info and offset metrics (\<open>_fixOffsetMetrics\<close>)\<close>

text \<open>
  The attributes of \<open>font.info\<close> the parser computes with; an attribute never assigned
  is \<open>None\<close>. The six attributes \<open>_OFFSET_METRICS\<close> can name are the type
  \<open>metric\<close>; \<open>getattr\<close> and \<open>setattr\<close> on them are \<open>getattr_info\<close> and
  \<open>setattr_info\<close>. The bounds are the dictionary \<open>getFontBounds(self._font.bounds)\<close>
  returns; \<open>asc\<close> and \<open>desc\<close> are the results of reading \<open>self._font.ascender\<close> and
  \<open>self._font.descender\<close>, attributes of the font object itself and not of its info: the
  read raises when the font object has no such attribute, and it happens only when the
  rule of an OS/2 typo metric runs.
\<close>

record fontinfo =
  ascender :: "int option"
  descender :: "int option"
  unitsPerEm :: "int option"
  openTypeHheaAscender :: "int option"
  openTypeHheaDescender :: "int option"
  openTypeOS2TypoAscender :: "int option"
  openTypeOS2TypoDescender :: "int option"
  openTypeOS2WinAscent :: "int option"
  openTypeOS2WinDescent :: "int option"

record bounds =
  xMin :: int
  yMin :: int
  xMax :: int
  yMax :: int

datatype metric =
    HheaAscender
  | HheaDescender
  | OS2TypoAscender
  | OS2TypoDescender
  | OS2WinAscent
  | OS2WinDescent

fun metric_name :: "metric \<Rightarrow> string" where
  "metric_name HheaAscender = ''openTypeHheaAscender''"
| "metric_name HheaDescender = ''openTypeHheaDescender''"
| "metric_name OS2TypoAscender = ''openTypeOS2TypoAscender''"
| "metric_name OS2TypoDescender = ''openTypeOS2TypoDescender''"
| "metric_name OS2WinAscent = ''openTypeOS2WinAscent''"
| "metric_name OS2WinDescent = ''openTypeOS2WinDescent''"

definition OFFSET_METRICS :: "string \<Rightarrow> metric option" where
  "OFFSET_METRICS key =
     (if key = ''HheadAOffset'' then Some HheaAscender
      else if key = ''HheadDOffset'' then Some HheaDescender
      else if key = ''OS2TypoAOffset'' then Some OS2TypoAscender
      else if key = ''OS2TypoDOffset'' then Some OS2TypoDescender
      else if key = ''OS2WinAOffset'' then Some OS2WinAscent
      else if key = ''OS2WinDOffset'' then Some OS2WinDescent
      else None)"

fun getattr_info :: "fontinfo \<Rightarrow> metric \<Rightarrow> int option" where
  "getattr_info fi HheaAscender = openTypeHheaAscender fi"
| "getattr_info fi HheaDescender = openTypeHheaDescender fi"
| "getattr_info fi OS2TypoAscender = openTypeOS2TypoAscender fi"
| "getattr_info fi OS2TypoDescender = openTypeOS2TypoDescender fi"
| "getattr_info fi OS2WinAscent = openTypeOS2WinAscent fi"
| "getattr_info fi OS2WinDescent = openTypeOS2WinDescent fi"

fun setattr_info :: "fontinfo \<Rightarrow> metric \<Rightarrow> int option \<Rightarrow> fontinfo" where
  "setattr_info fi HheaAscender v = fi\<lparr>openTypeHheaAscender := v\<rparr>"
| "setattr_info fi HheaDescender v = fi\<lparr>openTypeHheaDescender := v\<rparr>"
| "setattr_info fi OS2TypoAscender v = fi\<lparr>openTypeOS2TypoAscender := v\<rparr>"
| "setattr_info fi OS2TypoDescender v = fi\<lparr>openTypeOS2TypoDescender := v\<rparr>"
| "setattr_info fi OS2WinAscent v = fi\<lparr>openTypeOS2WinAscent := v\<rparr>"
| "setattr_info fi OS2WinDescent v = fi\<lparr>openTypeOS2WinDescent := v\<rparr>"

definition py_add :: "int option \<Rightarrow> int option \<Rightarrow> error + int" where
  "py_add a b = (case (a, b) of (Some x, Some y) \<Rightarrow> Inr (x + y) | _ \<Rightarrow> Inl TypeError)"

definition fixed_value ::
  "error + int option \<Rightarrow> error + int option \<Rightarrow> bounds \<Rightarrow> metric \<Rightarrow> int option \<Rightarrow>
   error + int" where
  "fixed_value asc desc bnds metric v =
     (case metric of
        OS2TypoAscender \<Rightarrow> (case asc of Inl e \<Rightarrow> Inl e | Inr a \<Rightarrow> py_add a v)
      | OS2TypoDescender \<Rightarrow> (case desc of Inl e \<Rightarrow> Inl e | Inr d \<Rightarrow> py_add d v)
      | OS2WinAscent \<Rightarrow> py_add (Some (yMax bnds)) v
      | OS2WinDescent \<Rightarrow>
          (case py_add (Some (- yMin bnds)) v of
             Inl e \<Rightarrow> Inl e
           | Inr w \<Rightarrow> Inr (max w 0))
      | HheaAscender \<Rightarrow> py_add (Some (yMax bnds)) v
      | HheaDescender \<Rightarrow> py_add (Some (yMin bnds)) v)"

definition fix_metric ::
  "fontinfo \<Rightarrow> error + int option \<Rightarrow> error + int option \<Rightarrow> bounds \<Rightarrow> metric \<Rightarrow>
   error + fontinfo" where
  "fix_metric fi asc desc bnds metric =
     (case fixed_value asc desc bnds metric (getattr_info fi metric) of
        Inl e \<Rightarrow> Inl e
      | Inr w \<Rightarrow> Inr (setattr_info fi metric (Some w)))"

fun fixOffsetMetrics ::
  "fontinfo \<Rightarrow> error + int option \<Rightarrow> error + int option \<Rightarrow> bounds \<Rightarrow> metric list \<Rightarrow>
   error + fontinfo" where
  "fixOffsetMetrics fi asc desc bnds [] = Inr fi"
| "fixOffsetMetrics fi asc desc bnds (metric # metrics) =
     (case fix_metric fi asc desc bnds metric of
        Inl e \<Rightarrow> Inl e
      | Inr fi' \<Rightarrow> fixOffsetMetrics fi' asc desc bnds metrics)"


section \<open>Glyphs, layers and the parser state\<close>

text \<open>
  The state is the parser's own fields and the part of the destination font the modelled
  records touch: the info, the layer table \<open>self._layers\<close> (an entry is \<open>None\<close>, a name
  before the layers are created, the font's default layer, or a layer of its own), the
  default layer's glyphs and the glyph order. Everything else (names, anchors, kerning,
  rule fragments, references, notes, colours) is the component \<open>ext\<close>, which only the
  functions of the environment read and write. The environment holds the collaborators of
  the parser: \<open>float()\<close>, the helpers of \<open>utils\<close>, the decoding by regular expressions,
  and the handlers of the records and passes that do not touch the modelled state.
\<close>

text \<open>
  A new glyph of the destination font has width and height 0, no code points and no
  outline. \<open>font.newGlyph\<close> replaces a glyph of the same name in the default layer and
  enters a new name at the end of the glyph order.
\<close>

record glyph =
  width :: int
  height :: int
  unicodes :: "int list"
  outline :: "upoint list list"

definition new_glyph :: glyph where
  "new_glyph = \<lparr>width = 0, height = 0, unicodes = [], outline = []\<rparr>"

type_synonym layer = "(string \<times> glyph) list"

datatype slot = NoLayer | LayerName string | DefaultLayer | Layer layer

datatype gref = InDefault | InLayer nat

record 'x state =
  info :: fontinfo
  layers :: "slot list"
  layerType :: "bool option list"
  defaultLayer :: layer
  glyphOrder :: "string list"
  ext :: 'x

text \<open>
  The environment. \<open>py_float\<close> is \<open>float()\<close> on text (\<open>None\<close> is the \<open>ValueError\<close>);
  \<open>SFDReadUTF7\<close> is the decoder of \<open>utils\<close>; \<open>altUnicodes\<close> gives the code points an
  \<open>AltUni2\<close> record adds (the hexadecimal decoding, \<open>_splitList\<close> and \<open>parseAltuni\<close>);
  \<open>parseSplineSet\<close> is \<open>_parseSplineSet\<close>, the decoding of the lines of a section to
  contours; \<open>glyphRecord\<close> handles the glyph records of \<open>GLYPH_RECORD_KEYS\<close>;
  \<open>fontRecord\<close> handles the font records the model does not look into and returns the
  index to go on from (a section or \<open>_parseKernClass\<close> moves it); \<open>layerRecord\<close> decodes a
  \<open>Layer\<close> record to its index, its flag and its name; \<open>resolve\<close> is the passes
  \<open>_processReferences\<close>, \<open>_processKerns\<close> and \<open>processKernClasses\<close>; \<open>fontAscender\<close>
  and \<open>fontDescender\<close> read \<open>self._font.ascender\<close> and \<open>self._font.descender\<close> (an
  \<open>AttributeError\<close> on a font object without them);
  \<open>fontBounds\<close> is \<open>getFontBounds(self._font.bounds)\<close>; \<open>writeFeatures\<close> is the two passes of
  \<open>_writeGSUBGPOS\<close> and \<open>_writeGDEF\<close> inside \<open>parse\<close>; \<open>styleFallback\<close> is the fallback
  for a missing style name.
\<close>

datatype pyfloat = Finite rat | PosInf | NegInf | NaN

record 'x env =
  py_float :: "string \<Rightarrow> pyfloat option"
  SFDReadUTF7 :: "string \<Rightarrow> string"
  altUnicodes :: "string \<Rightarrow> string option \<Rightarrow> error + int list"
  parseSplineSet :: "string list \<Rightarrow> error + contour list"
  glyphRecord :: "string \<Rightarrow> string option \<Rightarrow> string \<Rightarrow> gref \<Rightarrow> 'x state \<Rightarrow> error + 'x"
  fontRecord :: "string \<Rightarrow> string option \<Rightarrow> string list \<Rightarrow> int \<Rightarrow> 'x state \<Rightarrow> error + (int \<times> 'x)"
  layerRecord :: "string option \<Rightarrow> error + (int \<times> bool \<times> string)"
  resolve :: "'x state \<Rightarrow> error + 'x"
  fontAscender :: "'x state \<Rightarrow> error + int option"
  fontDescender :: "'x state \<Rightarrow> error + int option"
  fontBounds :: "'x state \<Rightarrow> bounds"
  writeFeatures :: "'x state \<Rightarrow> error + 'x"
  styleFallback :: "'x \<Rightarrow> 'x"

text \<open>
  The locals of \<open>_parseChar\<close>: \<open>layerGlyph\<close> (the layer that holds it; the name is the
  glyph's), \<open>unicodes\<close>, and \<open>quadratic\<close> and \<open>order\<close>, which are unbound (\<open>None\<close>)
  until a layer record and an \<open>Encoding\<close> record assign them.
\<close>

record clocals =
  c_layerGlyph :: gref
  c_unicodes :: "int list"
  c_quadratic :: "bool option option"
  c_order :: "int option"

definition py_pos :: "'a list \<Rightarrow> int \<Rightarrow> nat option" where
  "py_pos xs i =
     (if 0 \<le> i \<and> i < int (length xs) then Some (nat i)
      else if i < 0 \<and> - int (length xs) \<le> i then Some (nat (int (length xs) + i))
      else None)"

definition int_value :: "string option \<Rightarrow> error + int" where
  "int_value value =
     (case value of
        None \<Rightarrow> Inl TypeError
      | Some v \<Rightarrow> (case py_int v of None \<Rightarrow> Inl ValueError | Some n \<Rightarrow> Inr n))"

definition font_newGlyph :: "string \<Rightarrow> 'x state \<Rightarrow> 'x state" where
  "font_newGlyph name st =
     st\<lparr>defaultLayer := AList.update name new_glyph (defaultLayer st),
        glyphOrder := (if name \<in> set (glyphOrder st) then glyphOrder st else glyphOrder st @ [name])\<rparr>"

definition update_glyph :: "gref \<Rightarrow> string \<Rightarrow> (glyph \<Rightarrow> glyph) \<Rightarrow> 'x state \<Rightarrow> 'x state" where
  "update_glyph r name f st =
     (case r of
        InDefault \<Rightarrow> st\<lparr>defaultLayer := AList.map_entry name f (defaultLayer st)\<rparr>
      | InLayer k \<Rightarrow>
          st\<lparr>layers := (layers st)[k := (case layers st ! k of
                                             Layer l \<Rightarrow> Layer (AList.map_entry name f l)
                                           | s \<Rightarrow> s)]\<rparr>)"

definition LAYER_KEYWORDS :: "string list" where
  "LAYER_KEYWORDS = [''Back'', ''Fore'', ''Layer'']"

definition keyword_index :: "string \<Rightarrow> int" where
  "keyword_index key = (if key = ''Back'' then 0 else if key = ''Fore'' then 1 else 2)"

text \<open>
  \<open>idx = value and int(value) or self._LAYER_KEYWORDS.index(key)\<close>: a missing or empty value
  is falsy, and so is \<open>int(value)\<close> when it is 0. \<open>keyword_index\<close> is the index of one of
  the three keywords in \<open>_LAYER_KEYWORDS\<close>.
\<close>

definition layer_idx :: "string \<Rightarrow> string option \<Rightarrow> error + int" where
  "layer_idx key value =
     (case value of
        None \<Rightarrow> Inr (keyword_index key)
      | Some v \<Rightarrow>
          if v = [] then Inr (keyword_index key)
          else (case py_int v of
                  None \<Rightarrow> Inl ValueError
                | Some n \<Rightarrow> if n \<noteq> 0 then Inr n else Inr (keyword_index key)))"

text \<open>
  The branch \<open>key in self._LAYER_KEYWORDS\<close> of \<open>_parseChar\<close>. \<open>glyph\<close> is the glyph of that
  name in the default layer, so a layer entry that is the default layer gives \<open>glyph\<close>
  itself. The glyph is in the default layer from the moment the section is opened; the
  \<open>KeyError\<close> for a glyph missing there is never reached from \<open>_parseChar\<close>.
\<close>

definition switch_layer ::
  "string \<Rightarrow> string \<Rightarrow> string option \<Rightarrow> clocals \<Rightarrow> 'x state \<Rightarrow> error + (clocals \<times> 'x state)" where
  "switch_layer name key value cl st =
     (case layer_idx key value of
        Inl e \<Rightarrow> Inl e
      | Inr idx \<Rightarrow>
         (case py_pos (layers st) idx of
            None \<Rightarrow> Inl IndexError
          | Some k \<Rightarrow>
             (case py_index (layerType st) idx of
                None \<Rightarrow> Inl IndexError
              | Some quadratic \<Rightarrow>
                 (case layers st ! k of
                    NoLayer \<Rightarrow> Inl TypeError
                  | LayerName s \<Rightarrow> Inl (if contains s name then TypeError else AttributeError)
                  | DefaultLayer \<Rightarrow>
                      (case map_of (defaultLayer st) name of
                         None \<Rightarrow> Inl KeyError
                       | Some g \<Rightarrow>
                           Inr (cl\<lparr>c_layerGlyph := InDefault, c_quadratic := Some quadratic\<rparr>, st))
                  | Layer l \<Rightarrow>
                      (case map_of l name of
                         None \<Rightarrow>
                           (case map_of (defaultLayer st) name of
                              None \<Rightarrow> Inl KeyError
                            | Some g \<Rightarrow>
                                Inr (cl\<lparr>c_layerGlyph := InLayer k, c_quadratic := Some quadratic\<rparr>,
                                     st\<lparr>layers := (layers st)
                                          [k := Layer (AList.update name (new_glyph\<lparr>width := width g\<rparr>) l)]\<rparr>))
                       | Some g' \<Rightarrow>
                           Inr (cl\<lparr>c_layerGlyph := InLayer k, c_quadratic := Some quadratic\<rparr>, st))))))"

definition GLYPH_RECORD_KEYS :: "string list" where
  "GLYPH_RECORD_KEYS =
     [''GlyphClass'', ''AnchorPoint'', ''Colour'', ''Refer'', ''Kerns2'', ''Comment'',
      ''UnlinkRmOvrlpSave'', ''LCarets2'', ''Position2'', ''PairPos2'', ''Ligature2'',
      ''Substitution2'', ''AlternateSubs2'', ''MultipleSubs2'']"

definition record_key :: "string \<Rightarrow> string" where
  "record_key line = (case split_once '': '' line of None \<Rightarrow> line | Some (k, v) \<Rightarrow> k)"

definition record_value :: "string \<Rightarrow> string option" where
  "record_value line = (case split_once '': '' line of None \<Rightarrow> None | Some (k, v) \<Rightarrow> Some v)"

definition encoding_fields :: "string option \<Rightarrow> error + (int \<times> int \<times> int)" where
  "encoding_fields value =
     (case value of
        None \<Rightarrow> Inl AttributeError
      | Some v \<Rightarrow>
         (case map py_int (py_words v) of
            [Some enc, Some uni, Some order] \<Rightarrow> Inr (enc, uni, order)
          | _ \<Rightarrow> Inl ValueError))"

text \<open>
  The records of a glyph section, by key: the \<open>if\<close>/\<open>elif\<close> chain of \<open>_parseChar\<close>. The keys
  of \<open>GLYPH_RECORD_KEYS\<close> are handled by the environment (they write anchors, kerning, rule
  fragments, references, notes and colours); any other key is ignored, as in the source.
\<close>

datatype ckey =
    KWidth | KVWidth | KEncoding | KAltUni2 | KLayer | KSplineSet | KImage | KExternal | KIgnored

definition glyph_key :: "string \<Rightarrow> ckey" where
  "glyph_key key =
     (if key = ''Width'' then KWidth
      else if key = ''VWidth'' then KVWidth
      else if key = ''Encoding'' then KEncoding
      else if key = ''AltUni2'' then KAltUni2
      else if key \<in> set LAYER_KEYWORDS then KLayer
      else if key = ''SplineSet'' then KSplineSet
      else if key = ''Image'' then KImage
      else if key \<in> set GLYPH_RECORD_KEYS then KExternal
      else KIgnored)"

definition char_record ::
  "'x env \<Rightarrow> string \<Rightarrow> string list \<Rightarrow> int \<Rightarrow> string \<Rightarrow> clocals \<times> 'x state \<Rightarrow>
   error + (int \<times> clocals \<times> 'x state)" where
  "char_record env name data i line cs =
     (let key = record_key line; value = record_value line; cl = fst cs; st = snd cs
      in case glyph_key key of
           KWidth \<Rightarrow>
             (case int_value value of
                Inl e \<Rightarrow> Inl e
              | Inr n \<Rightarrow> Inr (i, cl, update_glyph InDefault name (\<lambda>g. g\<lparr>width := n\<rparr>) st))
         | KVWidth \<Rightarrow>
             (case int_value value of
                Inl e \<Rightarrow> Inl e
              | Inr n \<Rightarrow> Inr (i, cl, update_glyph InDefault name (\<lambda>g. g\<lparr>height := n\<rparr>) st))
         | KEncoding \<Rightarrow>
             (case encoding_fields value of
                Inl e \<Rightarrow> Inl e
              | Inr (enc, uni, order) \<Rightarrow>
                  Inr (i, cl\<lparr>c_unicodes := (if uni \<ge> 0 then c_unicodes cl @ [uni] else c_unicodes cl),
                             c_order := Some order\<rparr>, st))
         | KAltUni2 \<Rightarrow>
             (case altUnicodes env name value of
                Inl e \<Rightarrow> Inl e
              | Inr us \<Rightarrow> Inr (i, cl\<lparr>c_unicodes := c_unicodes cl @ us\<rparr>, st))
         | KLayer \<Rightarrow>
             (case switch_layer name key value cl st of
                Inl e \<Rightarrow> Inl e
              | Inr (cl', st') \<Rightarrow> Inr (i, cl', st'))
         | KSplineSet \<Rightarrow>
             (case getSection data i ''EndSplineSet'' [] of
                Inl e \<Rightarrow> Inl e
              | Inr (splines, i') \<Rightarrow>
                 (case parseSplineSet env splines of
                    Inl e \<Rightarrow> Inl e
                  | Inr contours \<Rightarrow>
                     (case c_quadratic cl of
                        None \<Rightarrow> Inl UnboundLocalError
                      | Some quadratic \<Rightarrow>
                         (case drawContours (quadratic = Some True) contours of
                            Inl e \<Rightarrow> Inl e
                          | Inr us \<Rightarrow>
                              Inr (i', cl, update_glyph (c_layerGlyph cl) name
                                             (\<lambda>g. g\<lparr>outline := outline g @ us\<rparr>) st)))))
         | KImage \<Rightarrow>
             (case getSection data i ''EndImage'' (section_seed value) of
                Inl e \<Rightarrow> Inl e
              | Inr (img, i') \<Rightarrow> Inr (i', cl, st))
         | KExternal \<Rightarrow>
             (case glyphRecord env key value name (c_layerGlyph cl) st of
                Inl e \<Rightarrow> Inl e
              | Inr x \<Rightarrow> Inr (i, cl, st\<lparr>ext := x\<rparr>))
         | KIgnored \<Rightarrow> Inr (i, cl, st))"

lemma char_record_index:
  "char_record env name data i line cs = Inr (i', cs') \<Longrightarrow> i \<le> i'"
  unfolding char_record_def Let_def
  by (cases "glyph_key (record_key line)")
     (auto split: sum.splits option.splits dest: getSection_index)

function parse_records ::
  "'x env \<Rightarrow> string \<Rightarrow> string list \<Rightarrow> int \<Rightarrow> clocals \<times> 'x state \<Rightarrow> error + (clocals \<times> 'x state)" where
  "parse_records env name data i cs =
     (if i < int (length data) then
        (case py_index data i of
           None \<Rightarrow> Inl IndexError
         | Some line \<Rightarrow>
            (case char_record env name data (i + 1) line cs of
               Inl e \<Rightarrow> Inl e
             | Inr (i', cs') \<Rightarrow> parse_records env name data i' cs'))
      else Inr cs)"
  by pat_completeness auto
termination
proof (relation "measure (\<lambda>(env, name, data, i, cs). nat (int (length data) - i))")
  show "wf (measure (\<lambda>(env :: 'x env, name :: string, data :: string list, i :: int, cs :: clocals \<times> 'x state).
              nat (int (length data) - i)))" by simp
next
  fix env :: "'x env" and name data i and cs :: "clocals \<times> 'x state" and line r i' cs'
  assume "i < int (length data)" and "char_record env name data (i + 1) line cs = Inr r"
    and "(i', cs') = r"
  then have "i + 1 \<le> i'" using char_record_index[of env name data "i + 1" line cs i' cs'] by simp
  with \<open>i < int (length data)\<close>
  show "((env, name, data, i', cs'), (env, name, data, i, cs))
          \<in> measure (\<lambda>(env, name, data, i, cs). nat (int (length data) - i))"
    by simp
qed

declare parse_records.simps [simp del]

text \<open>
  \<open>_parseChar\<close>: the first line must split at \<open>': '\<close> into exactly two parts; the loop over
  the records; then \<open>glyph.unicodes = unicodes\<close> and \<open>return glyph, order\<close>, where \<open>order\<close>
  is unbound unless an \<open>Encoding\<close> record assigned it.
\<close>

definition parseChar ::
  "'x env \<Rightarrow> string list \<Rightarrow> 'x state \<Rightarrow> error + (string \<times> int \<times> 'x state)" where
  "parseChar env data st =
     (case data of
        [] \<Rightarrow> Inl IndexError
      | first # records \<Rightarrow>
         (case split_once '': '' first of
            None \<Rightarrow> Inl ValueError
          | Some (u, name0) \<Rightarrow>
              if contains name0 '': '' then Inl ValueError
              else
                (let name = (if starts_with name0 [CHR 0x22] then SFDReadUTF7 env name0 else name0);
                     cl = \<lparr>c_layerGlyph = InDefault, c_unicodes = [], c_quadratic = None,
                           c_order = None\<rparr>
                 in case parse_records env name records 0 (cl, font_newGlyph name st) of
                      Inl e \<Rightarrow> Inl e
                    | Inr (cl', st') \<Rightarrow>
                       (case c_order cl' of
                          None \<Rightarrow> Inl UnboundLocalError
                        | Some order \<Rightarrow>
                            Inr (name, order,
                                 update_glyph InDefault name
                                   (\<lambda>g. g\<lparr>unicodes := c_unicodes cl'\<rparr>) st')))))"

text \<open>
  The loop of \<open>_parseChars\<close>, with the font and \<open>glyphOrderMap\<close> (a dictionary: a new name is
  appended, a known name keeps its place), and \<open>_parseChars\<close> itself: the assertion and
  \<open>font.glyphOrder = sorted(glyphOrderMap, key=glyphOrderMap.get)\<close>, a stable sort.
\<close>

function collect_chars ::
  "'x env \<Rightarrow> string list \<Rightarrow> int \<Rightarrow> 'x state \<times> (string \<times> int) list \<Rightarrow>
   error + ('x state \<times> (string \<times> int) list)" where
  "collect_chars env data i sm =
     (if i < int (length data) then
        (case py_index data i of
           None \<Rightarrow> Inl IndexError
         | Some line \<Rightarrow>
             if starts_with line ''StartChar'' then
               (case getSection data (i + 1) ''EndChar'' [line] of
                  Inl e \<Rightarrow> Inl e
                | Inr (char, i') \<Rightarrow>
                   (case parseChar env char (fst sm) of
                      Inl e \<Rightarrow> Inl e
                    | Inr (name, order, st') \<Rightarrow>
                        collect_chars env data i' (st', AList.update name order (snd sm))))
             else collect_chars env data (i + 1) sm)
      else Inr sm)"
  by pat_completeness auto
termination
proof (relation "measure (\<lambda>(env, data, i, sm). nat (int (length data) - i))")
  show "wf (measure (\<lambda>(env :: 'x env, data :: string list, i :: int,
                       sm :: 'x state \<times> (string \<times> int) list). nat (int (length data) - i)))"
    by simp
next
  fix env :: "'x env" and data i and sm :: "'x state \<times> (string \<times> int) list"
    and line r char i' r' p name r'' order st'
  assume "i < int (length data)" and "getSection data (i + 1) ''EndChar'' [line] = Inr r"
    and "(char, i') = r"
  then have "i + 1 < i'" using getSection_index[of data "i + 1" "''EndChar''" "[line]" char i'] by simp
  with \<open>i < int (length data)\<close>
  show "((env, data, i', st', AList.update name order (snd sm)), (env, data, i, sm))
          \<in> measure (\<lambda>(env, data, i, sm). nat (int (length data) - i))"
    by simp
next
  fix env :: "'x env" and data i and sm :: "'x state \<times> (string \<times> int) list" and line
  assume "i < int (length data)"
  then show "((env, data, i + 1, sm), (env, data, i, sm))
          \<in> measure (\<lambda>(env, data, i, sm). nat (int (length data) - i))"
    by simp
qed

declare collect_chars.simps [simp del]

definition parseChars :: "'x env \<Rightarrow> string list option \<Rightarrow> 'x state \<Rightarrow> error + 'x state" where
  "parseChars env charData st =
     (case charData of
        None \<Rightarrow> Inl TypeError
      | Some raw \<Rightarrow>
         (case collect_chars env (filter (\<lambda>l. l \<noteq> []) (map strip raw)) 0 (st, []) of
            Inl e \<Rightarrow> Inl e
          | Inr (st', glyphOrderMap) \<Rightarrow>
              if length (glyphOrder st') \<noteq> length glyphOrderMap then Inl AssertionError
              else Inr (st'\<lparr>glyphOrder := map fst (sort_key snd glyphOrderMap)\<rparr>)))"

text \<open>
  The lines of a glyph section that the loop of \<open>_parseChar\<close> reads as records: all but the
  lines inside \<open>SplineSet\<close> and \<open>Image\<close> sections. \<open>rank_of\<close> is the rank an \<open>Encoding\<close>
  record gives.
\<close>

function top_records :: "string list \<Rightarrow> int \<Rightarrow> string list" where
  "top_records data i =
     (if i < int (length data) then
        (case py_index data i of
           None \<Rightarrow> []
         | Some line \<Rightarrow>
            (case glyph_key (record_key line) of
               KSplineSet \<Rightarrow>
                 (case getSection data (i + 1) ''EndSplineSet'' [] of
                    Inl e \<Rightarrow> [line]
                  | Inr (sec, i') \<Rightarrow> line # top_records data i')
             | KImage \<Rightarrow>
                 (case getSection data (i + 1) ''EndImage'' (section_seed (record_value line)) of
                    Inl e \<Rightarrow> [line]
                  | Inr (sec, i') \<Rightarrow> line # top_records data i')
             | _ \<Rightarrow> line # top_records data (i + 1)))
      else [])"
  by pat_completeness auto
termination
  by (relation "measure (\<lambda>(data, i). nat (int (length data) - i))")
     (auto dest: getSection_index)

declare top_records.simps [simp del]

definition encoding_records :: "string list \<Rightarrow> string list" where
  "encoding_records records = filter (\<lambda>l. record_key l = ''Encoding'') (top_records records 0)"

definition rank_of :: "string \<Rightarrow> int option" where
  "rank_of line =
     (case encoding_fields (record_value line) of
        Inl e \<Rightarrow> None
      | Inr (enc, uni, order) \<Rightarrow> Some order)"

section \<open>The font parser (\<open>parse\<close>)\<close>

text \<open>
  The main loop reads \<open>data[i]\<close>; a record handler of the environment may move \<open>i\<close>
  anywhere (\<open>_parseKernClass\<close> adds counts read from the file), so the loop is a partial
  function: \<open>None\<close> is a run that never returns. The message of the version exception
  is modelled without the formatted number.
\<close>

text \<open>
  \<open>key, value = [v.strip() for v in line.split(':', 1)]\<close>, or the stripped line alone.
\<close>

definition font_line :: "string \<Rightarrow> string \<times> string option" where
  "font_line line =
     (case split_once '':'' line of
        Some (k, v) \<Rightarrow> (strip k, Some (strip v))
      | None \<Rightarrow> (strip line, None))"

text \<open>
  A line of the font source as key and value, and the check of the first line
  (\<open>i == 1\<close>).
\<close>

definition check_header :: "'x env \<Rightarrow> string \<Rightarrow> string option \<Rightarrow> error option" where
  "check_header env key value =
     (if key \<noteq> ''SplineFontDB'' then Some (Exception ''Not an SFD file.'')
      else (case value of
              None \<Rightarrow> Some TypeError
            | Some v \<Rightarrow>
               (case py_float env v of
                  None \<Rightarrow> Some ValueError
                | Some version \<Rightarrow>
                    if version \<noteq> Finite 3 then Some (Exception ''Unsupported SFD version'')
                    else None)))"

record 'x plocals =
  p_state :: "'x state"
  p_charData :: "string list option"
  p_offsetMetrics :: "metric list"

text \<open>
  The records of the font source, by key. The keys before \<open>Ascent\<close> in the chain and the
  keys the model does not look into go to the environment; \<open>key in 'Ascent'\<close> and
  \<open>key in 'Descent'\<close> are substring tests.
\<close>

datatype fkey =
    FAscent | FDescent | FLayerCount | FLayer | FMetric metric | FOffset metric
  | FBeginChars | FEndSplineFont | FExternal

definition EARLY_KEYS :: "string list" where
  "EARLY_KEYS =
     [''FontName'', ''FullName'', ''FamilyName'', ''DefaultBaseFilename'', ''Weight'',
      ''Copyright'', ''Comments'', ''UComments'', ''FontLog'', ''Version'', ''ItalicAngle'',
      ''UnderlinePosition'', ''UnderlineWidth'']"

definition font_key :: "string \<Rightarrow> fkey" where
  "font_key key =
     (if key \<in> set EARLY_KEYS then FExternal
      else if contains ''Ascent'' key then FAscent
      else if contains ''Descent'' key then FDescent
      else if key = ''LayerCount'' then FLayerCount
      else if key = ''Layer'' then FLayer
      else if key = ''HheadAscent'' then FMetric HheaAscender
      else if key = ''HheadDescent'' then FMetric HheaDescender
      else if key = ''OS2TypoAscent'' then FMetric OS2TypoAscender
      else if key = ''OS2TypoDescent'' then FMetric OS2TypoDescender
      else if key = ''OS2WinAscent'' then FMetric OS2WinAscent
      else if key = ''OS2WinDescent'' then FMetric OS2WinDescent
      else (case OFFSET_METRICS key of
              Some m \<Rightarrow> FOffset m
            | None \<Rightarrow>
                if key = ''BeginChars'' then FBeginChars
                else if key = ''EndSplineFont'' then FEndSplineFont
                else FExternal))"

definition font_record ::
  "'x env \<Rightarrow> string list \<Rightarrow> int \<Rightarrow> string \<Rightarrow> string option \<Rightarrow> 'x plocals \<Rightarrow>
   error + (bool \<times> int \<times> 'x plocals)" where
  "font_record env data i key value loc =
     (let st = p_state loc
      in case font_key key of
           FAscent \<Rightarrow>
             (case int_value value of
                Inl e \<Rightarrow> Inl e
              | Inr n \<Rightarrow>
                  Inr (False, i, loc\<lparr>p_state := st\<lparr>info := (info st)\<lparr>ascender := Some n\<rparr>\<rparr>\<rparr>))
         | FDescent \<Rightarrow>
             (case int_value value of
                Inl e \<Rightarrow> Inl e
              | Inr n \<Rightarrow>
                  Inr (False, i, loc\<lparr>p_state := st\<lparr>info := (info st)\<lparr>descender := Some (- n)\<rparr>\<rparr>\<rparr>))
         | FLayerCount \<Rightarrow>
             (case int_value value of
                Inl e \<Rightarrow> Inl e
              | Inr n \<Rightarrow>
                  Inr (False, i, loc\<lparr>p_state := st\<lparr>layers := replicate (nat n) NoLayer,
                                                     layerType := replicate (nat n) None\<rparr>\<rparr>))
         | FLayer \<Rightarrow>
             (case layerRecord env value of
                Inl e \<Rightarrow> Inl e
              | Inr (idx, quadratic, name) \<Rightarrow>
                 (case py_pos (layers st) idx of
                    None \<Rightarrow> Inl IndexError
                  | Some k \<Rightarrow>
                     (case py_pos (layerType st) idx of
                        None \<Rightarrow> Inl IndexError
                      | Some k' \<Rightarrow>
                          Inr (False, i,
                               loc\<lparr>p_state := st\<lparr>layers := (layers st)
                                                      [k := (if idx = 1 then DefaultLayer else LayerName name)],
                                                  layerType := (layerType st)[k' := Some quadratic]\<rparr>\<rparr>))))
         | FMetric m \<Rightarrow>
             (case int_value value of
                Inl e \<Rightarrow> Inl e
              | Inr n \<Rightarrow>
                  Inr (False, i, loc\<lparr>p_state := st\<lparr>info := setattr_info (info st) m (Some n)\<rparr>\<rparr>))
         | FOffset m \<Rightarrow>
             (case int_value value of
                Inl e \<Rightarrow> Inl e
              | Inr n \<Rightarrow>
                  Inr (False, i,
                       if n \<noteq> 0 then loc\<lparr>p_offsetMetrics := p_offsetMetrics loc @ [m]\<rparr> else loc))
         | FBeginChars \<Rightarrow>
             (case getSection data i ''EndChars'' [] of
                Inl e \<Rightarrow> Inl e
              | Inr (sect, i') \<Rightarrow> Inr (False, i', loc\<lparr>p_charData := Some sect\<rparr>))
         | FEndSplineFont \<Rightarrow> Inr (True, i, loc)
         | FExternal \<Rightarrow>
             (case fontRecord env key value data i st of
                Inl e \<Rightarrow> Inl e
              | Inr (i', x) \<Rightarrow> Inr (False, i', loc\<lparr>p_state := st\<lparr>ext := x\<rparr>\<rparr>)))"

partial_function (option) scan ::
  "'x env \<Rightarrow> string list \<Rightarrow> int \<Rightarrow> 'x plocals \<Rightarrow> (error + 'x plocals) option" where
  "scan env data i loc =
     (if i < int (length data) then
        (case py_index data i of
           None \<Rightarrow> Some (Inl IndexError)
         | Some line \<Rightarrow>
             if i + 1 = 1 then
               (case check_header env (fst (font_line line)) (snd (font_line line)) of
                  Some e \<Rightarrow> Some (Inl e)
                | None \<Rightarrow> scan env data (i + 1) loc)
             else
               (case font_record env data (i + 1) (fst (font_line line)) (snd (font_line line)) loc of
                  Inl e \<Rightarrow> Some (Inl e)
                | Inr (brk, i', loc') \<Rightarrow>
                    if brk then Some (Inr loc') else scan env data i' loc'))
      else Some (Inr loc))"

declare scan.simps [code]

text \<open>
  After the loop: a layer is created for each name left in the layer table (the names
  are not part of the model); then the passes in their order. \<open>glyphFiles\<close> are the lines
  of the \<open>*.glyph\<close> files when the source is a directory. \<open>glyph_passes\<close> is the part
  up to \<open>processKernClasses\<close>: it gives the font on which \<open>_fixOffsetMetrics\<close> runs.
\<close>

definition create_layers :: "slot list \<Rightarrow> slot list" where
  "create_layers ls = map (\<lambda>s. case s of LayerName name \<Rightarrow> Layer [] | _ \<Rightarrow> s) ls"

definition py_sub :: "int option \<Rightarrow> int option \<Rightarrow> error + int" where
  "py_sub a b = (case (a, b) of (Some x, Some y) \<Rightarrow> Inr (x - y) | _ \<Rightarrow> Inl TypeError)"

definition glyph_passes :: "'x env \<Rightarrow> string list option \<Rightarrow> 'x plocals \<Rightarrow> error + 'x state" where
  "glyph_passes env glyphFiles loc =
     (let st1 = (p_state loc)\<lparr>layers := create_layers (layers (p_state loc))\<rparr>
      in case (case glyphFiles of
                 None \<Rightarrow> Inr (p_charData loc)
               | Some files \<Rightarrow>
                   if p_charData loc \<noteq> None then Inl AssertionError else Inr (Some files)) of
           Inl e \<Rightarrow> Inl e
         | Inr charData \<Rightarrow>
            (case parseChars env charData st1 of
               Inl e \<Rightarrow> Inl e
             | Inr st2 \<Rightarrow>
                (case resolve env st2 of
                   Inl e \<Rightarrow> Inl e
                 | Inr x \<Rightarrow> Inr (st2\<lparr>ext := x\<rparr>))))"

definition finish :: "'x env \<Rightarrow> string list option \<Rightarrow> 'x plocals \<Rightarrow> error + 'x state" where
  "finish env glyphFiles loc =
     (case glyph_passes env glyphFiles loc of
        Inl e \<Rightarrow> Inl e
      | Inr st3 \<Rightarrow>
         (case fixOffsetMetrics (info st3) (fontAscender env st3)
                 (fontDescender env st3) (fontBounds env st3)
                 (p_offsetMetrics loc) of
            Inl e \<Rightarrow> Inl e
          | Inr fi \<Rightarrow>
             (let st4 = st3\<lparr>info := fi\<rparr>
              in case writeFeatures env st4 of
                   Inl e \<Rightarrow> Inl e
                 | Inr x' \<Rightarrow>
                    (case py_sub (ascender (info st4)) (descender (info st4)) of
                       Inl e \<Rightarrow> Inl e
                     | Inr upm \<Rightarrow>
                         Inr (st4\<lparr>info := (info st4)\<lparr>unitsPerEm := Some upm\<rparr>,
                                 ext := styleFallback env x'\<rparr>)))))"

definition parse ::
  "'x env \<Rightarrow> string list \<Rightarrow> string list option \<Rightarrow> 'x state \<Rightarrow> (error + 'x state) option" where
  "parse env data glyphFiles st =
     (case scan env data 0 \<lparr>p_state = st, p_charData = None, p_offsetMetrics = []\<rparr> of
        None \<Rightarrow> None
      | Some (Inl e) \<Rightarrow> Some (Inl e)
      | Some (Inr loc) \<Rightarrow> Some (finish env glyphFiles loc))"

section \<open>Lookup names (\<open>_santizeLookupName\<close>)\<close>

text \<open>
  The state of the feature writer: the lookups of the two tables with their subtables,
  the information \<open>_parseLookup\<close> recorded for each lookup (kind, flags, and for each
  feature its tag and its list of scripts with their languages), the anchor classes by
  subtable, the rule fragments by glyph and subtable, and the memo of sanitized names.
  The dictionaries are association lists in insertion order.
\<close>

type_synonym langsys = "string \<times> string list"
type_synonym feature = "string \<times> langsys list"
type_synonym lookup_info = "string \<times> string list \<times> feature list"

record 'f fstate =
  gsubLookups :: "(string \<times> string list) list"
  gposLookups :: "(string \<times> string list) list"
  lookupInfo :: "(string \<times> lookup_info) list"
  anchorClasses :: "(string \<times> string list) list"
  glyphPosSub :: "(string \<times> (string \<times> 'f list) list) list"
  sanitizedLookupNames :: "(string \<times> string) list"

definition SHORT_LOOKUP_TYPES :: "(string \<times> string) list" where
  "SHORT_LOOKUP_TYPES =
     [(''gsub_single'', ''single''), (''gsub_multiple'', ''mult''), (''gsub_alternate'', ''alt''),
      (''gsub_ligature'', ''ligature''), (''gsub_context'', ''context''),
      (''gsub_contextchain'', ''chain''), (''gsub_reversecchain'', ''reversecc''),
      (''gpos_single'', ''single''), (''gpos_pair'', ''pair''), (''gpos_cursive'', ''cursive''),
      (''gpos_mark2base'', ''mark2base''), (''gpos_mark2ligature'', ''mark2liga''),
      (''gpos_mark2mark'', ''mark2mark''), (''gpos_context'', ''context''),
      (''gpos_contextchain'', ''chain'')]"

definition short_kind :: "string \<Rightarrow> string" where
  "short_kind kind = (case map_of SHORT_LOOKUP_TYPES kind of None \<Rightarrow> ''unknown'' | Some s \<Rightarrow> s)"

fun keep_chars :: "nat \<Rightarrow> string \<Rightarrow> string" where
  "keep_chars i [] = []"
| "keep_chars i (ch # s) =
     (if (of_char ch :: nat) \<ge> 127 then keep_chars (Suc i) s
      else if is_alpha ch then ch # keep_chars (Suc i) s
      else if ch = CHR ''.'' \<or> ch = CHR ''_'' then ch # keep_chars (Suc i) s
      else if i \<noteq> 0 \<and> is_digit ch then ch # keep_chars (Suc i) s
      else keep_chars (Suc i) s)"

definition base_name :: "string \<Rightarrow> string" where
  "base_name lookup = take 63 (keep_chars 0 lookup)"

definition digit_char :: "nat \<Rightarrow> char" where
  "digit_char d = char_of (48 + d)"

fun dec :: "nat \<Rightarrow> string" where
  "dec n = (if n < 10 then [digit_char n] else dec (n div 10) @ [digit_char (n mod 10)])"

declare dec.simps [simp del]

definition synth_stem :: "bool \<Rightarrow> string \<Rightarrow> string \<Rightarrow> string \<Rightarrow> string" where
  "synth_stem isgpos kind feat script =
     (if isgpos then ''pos'' else ''sub'') @ ''_'' @ kind @ ''_'' @ feat @ script @ ''_''"

definition feat_script :: "feature list \<Rightarrow> error + (string \<times> string)" where
  "feat_script fealangsys =
     (case fealangsys of
        [] \<Rightarrow> Inr ([], [])
      | (tag, sls) # rest \<Rightarrow>
         (case tag of
            [] \<Rightarrow> Inl IndexError
          | c # cs \<Rightarrow>
              Inr (tag, foldl (\<lambda>script sl. if fst sl \<noteq> ''DFLT'' then fst sl else script) [c] sls)))"

lemma dec_value: "foldl (\<lambda>a c. 10 * a + (of_char c - 48)) 0 (dec n) = n"
proof (induction n rule: dec.induct)
  case (1 n)
  show ?case
  proof (cases "n < 10")
    case True
    then show ?thesis by (subst dec.simps) (simp add: digit_char_def)
  next
    case False
    with 1 show ?thesis by (subst dec.simps) (simp add: digit_char_def)
  qed
qed

lemma dec_inj: "inj dec"
  by (rule inj_on_inverseI[where g = "foldl (\<lambda>a c. 10 * a + (of_char c - 48)) 0"]) (rule dec_value)

function unique_name :: "string \<Rightarrow> string list \<Rightarrow> nat \<Rightarrow> string" where
  "unique_name stem names i =
     (if stem @ dec i \<in> set names then unique_name stem names (i + 2) else stem @ dec i)"
  by pat_completeness auto
termination
proof (relation "measure (\<lambda>(stem, names, i). card {j. i \<le> j \<and> stem @ dec j \<in> set names})")
  show "wf (measure (\<lambda>(stem, names, i). card {j. i \<le> j \<and> stem @ dec j \<in> set names}))" by simp
next
  fix stem :: string and names :: "string list" and i :: nat
  assume used: "stem @ dec i \<in> set names"
  have "inj (\<lambda>j. stem @ dec j)" using dec_inj by (auto simp: inj_def)
  then have "finite ((\<lambda>j. stem @ dec j) -` set names)" by (intro finite_vimageI) simp_all
  then have fin: "finite {j. i \<le> j \<and> stem @ dec j \<in> set names}"
    by (rule rev_finite_subset) auto
  have sub: "{j. i + 2 \<le> j \<and> stem @ dec j \<in> set names} \<subseteq> {j. i \<le> j \<and> stem @ dec j \<in> set names}"
    by auto
  have "i \<in> {j. i \<le> j \<and> stem @ dec j \<in> set names}"
    and "i \<notin> {j. i + 2 \<le> j \<and> stem @ dec j \<in> set names}"
    using used by simp_all
  with sub have "{j. i + 2 \<le> j \<and> stem @ dec j \<in> set names} \<subset> {j. i \<le> j \<and> stem @ dec j \<in> set names}"
    by blast
  from psubset_card_mono[OF fin this]
  show "((stem, names, i + 2), (stem, names, i))
          \<in> measure (\<lambda>(stem, names, i). card {j. i \<le> j \<and> stem @ dec j \<in> set names})"
    by simp
qed

declare unique_name.simps [simp del]

definition santizeLookupName ::
  "(string \<times> lookup_info) list \<Rightarrow> (string \<times> string) list \<Rightarrow> string \<Rightarrow> bool option \<Rightarrow>
   error + ((string \<times> string) list \<times> string)" where
  "santizeLookupName linfo memo lookup isgpos =
     (case map_of memo lookup of
        Some name \<Rightarrow> Inr (memo, name)
      | None \<Rightarrow>
         (case isgpos of
            None \<Rightarrow> Inl AssertionError
          | Some g \<Rightarrow>
              if base_name lookup \<notin> set (map snd memo) then
                Inr (memo @ [(lookup, base_name lookup)], base_name lookup)
              else
                (case map_of linfo lookup of
                   None \<Rightarrow> Inl KeyError
                 | Some (kind, flags, fealangsys) \<Rightarrow>
                    (case feat_script fealangsys of
                       Inl e \<Rightarrow> Inl e
                     | Inr (feat, script) \<Rightarrow>
                         Inr (memo @ [(lookup,
                                unique_name (synth_stem g (short_kind kind) feat script)
                                  (map snd memo) 0)],
                              unique_name (synth_stem g (short_kind kind) feat script)
                                (map snd memo) 0)))))"

fun sanitize_all ::
  "(string \<times> lookup_info) list \<Rightarrow> (string \<times> string) list \<Rightarrow> (string \<times> bool option) list \<Rightarrow>
   error + (string \<times> string) list" where
  "sanitize_all linfo memo [] = Inr memo"
| "sanitize_all linfo memo ((lookup, isgpos) # calls) =
     (case santizeLookupName linfo memo lookup isgpos of
        Inl e \<Rightarrow> Inl e
      | Inr (memo', name) \<Rightarrow> sanitize_all linfo memo' calls)"

text \<open>
  The characters \<open>_santizeLookupName\<close> can keep, the raw name without a digit in its
  first position, and the name as the specification words it (every leading digit
  dropped). The invariant of the memo: no lookup twice, no name twice.
\<close>

definition allowed_char :: "char \<Rightarrow> bool" where
  "allowed_char c = (is_alpha c \<or> c = CHR ''.'' \<or> c = CHR ''_'' \<or> is_digit c)"

definition drop_digit0 :: "string \<Rightarrow> string" where
  "drop_digit0 l = (case l of [] \<Rightarrow> [] | c # s \<Rightarrow> if is_digit c then s else c # s)"

definition spec_lookup_name :: "string \<Rightarrow> string" where
  "spec_lookup_name l = take 63 (dropWhile is_digit (filter allowed_char l))"

definition memo_inv :: "(string \<times> string) list \<Rightarrow> bool" where
  "memo_inv memo = (distinct (map fst memo) \<and> distinct (map snd memo))"

section \<open>The feature writer (\<open>_pruneSubtables\<close>, \<open>_writeGSUBGPOS\<close>)\<close>

text \<open>
  \<open>survives\<close> words the two ways a subtable is kept. The writer first sanitizes the name
  of every lookup of the table, prunes, and returns when nothing is left. The statements
  it emits are a datatype, rendered to the lines of the source by \<open>render\<close>; the rule
  lines of a lookup (lines 940 to 965 and \<open>_writeAnchorClass\<close>) are the parameter
  \<open>body\<close>. The later calls \<open>_santizeLookupName(lookup)\<close> find the name the first loop
  memoized. Languages are sorted with \<open>dflt\<close> first; the order of languages with equal
  sort keys and of a Python set is the order of first occurrence.
\<close>

definition survives :: "'f fstate \<Rightarrow> string \<Rightarrow> bool" where
  "survives st sub =
     ((\<exists>g frags. (g, frags) \<in> set (glyphPosSub st) \<and> sub \<in> fst ` set frags) \<or>
      sub \<in> fst ` set (anchorClasses st))"

fun pruneSubtables :: "'f fstate \<Rightarrow> string list \<Rightarrow> bool \<Rightarrow> string list" where
  "pruneSubtables st [] isgpos = []"
| "pruneSubtables st (sub # subtables) isgpos =
     (if list_ex (\<lambda>g. sub \<in> fst ` set (snd g)) (glyphPosSub st) then
        sub # pruneSubtables st subtables isgpos
      else if sub \<in> fst ` set (anchorClasses st) then
        sub # pruneSubtables st subtables isgpos
      else pruneSubtables st subtables isgpos)"

definition py_any :: "string list \<Rightarrow> bool" where
  "py_any xs = list_ex (\<lambda>s. s \<noteq> []) xs"

definition tableLookups :: "'f fstate \<Rightarrow> bool \<Rightarrow> (string \<times> string list) list" where
  "tableLookups st isgpos = (if isgpos then gposLookups st else gsubLookups st)"

definition uniq :: "'a list \<Rightarrow> 'a list" where
  "uniq xs = rev (remdups (rev xs))"

fun mapM :: "('a \<Rightarrow> error + 'b) \<Rightarrow> 'a list \<Rightarrow> error + 'b list" where
  "mapM f [] = Inr []"
| "mapM f (x # xs) =
     (case f x of
        Inl e \<Rightarrow> Inl e
      | Inr y \<Rightarrow> (case mapM f xs of Inl e \<Rightarrow> Inl e | Inr ys \<Rightarrow> Inr (y # ys)))"

type_synonym resolved = "string \<times> string list \<times> lookup_info \<times> string"

definition resolve_lookup ::
  "(string \<times> lookup_info) list \<Rightarrow> (string \<times> string) list \<Rightarrow> string \<times> string list \<Rightarrow>
   error + resolved" where
  "resolve_lookup linfo memo ls =
     (case map_of linfo (fst ls) of
        None \<Rightarrow> Inl KeyError
      | Some li \<Rightarrow>
         (case santizeLookupName linfo memo (fst ls) None of
            Inl e \<Rightarrow> Inl e
          | Inr (memo', name) \<Rightarrow> Inr (fst ls, snd ls, li, name)))"

definition fealangsys_of :: "resolved \<Rightarrow> feature list" where
  "fealangsys_of r = snd (snd (fst (snd (snd r))))"

definition name_of :: "resolved \<Rightarrow> string" where
  "name_of r = snd (snd (snd r))"

definition lang_key :: "string \<Rightarrow> string" where
  "lang_key l = (if l = ''dflt'' then ''0'' else l)"

definition featureSet :: "resolved list \<Rightarrow> string list" where
  "featureSet rs = uniq (concat (map (\<lambda>r. map fst (fealangsys_of r)) rs))"

definition scriptSet :: "resolved list \<Rightarrow> string list" where
  "scriptSet rs =
     sort (remdups (concat (map (\<lambda>r. concat (map (\<lambda>f. map fst (snd f)) (fealangsys_of r))) rs)))"

definition langSet :: "resolved list \<Rightarrow> string \<Rightarrow> string list" where
  "langSet rs script =
     sort_key lang_key
       (uniq (concat (map (\<lambda>r. concat (map (\<lambda>f.
          concat (map snd (filter (\<lambda>sl. fst sl = script) (snd f)))) (fealangsys_of r))) rs)))"

definition feature_lookups :: "resolved list \<Rightarrow> string \<Rightarrow> string \<Rightarrow> string \<Rightarrow> string list" where
  "feature_lookups rs feature script language =
     concat (map (\<lambda>r.
       concat (map (\<lambda>fl.
         concat (map (\<lambda>sl.
           map (\<lambda>ll. name_of r) (filter (\<lambda>ll. language = ll) (snd sl)))
           (filter (\<lambda>sl. script = fst sl) (snd fl))))
         (filter (\<lambda>fl. feature = fst fl) (fealangsys_of r))))
       rs)"

definition build_features ::
  "resolved list \<Rightarrow> (string \<times> (string \<times> (string \<times> string list) list) list) list" where
  "build_features rs =
     filter (\<lambda>f. snd f \<noteq> [])
       (map (\<lambda>feature.
          (feature,
           filter (\<lambda>s. snd s \<noteq> [])
             (map (\<lambda>script.
                (script,
                 filter (\<lambda>l. snd l \<noteq> [])
                   (map (\<lambda>language. (language, feature_lookups rs feature script language))
                      (langSet rs script))))
                (scriptSet rs))))
          (featureSet rs))"

datatype stmt =
    Raw string
  | LookupBegin string
  | LookupFlag string
  | Rule string
  | LookupEnd string
  | FeatureBegin string
  | Script string
  | Language string
  | LookupRef string
  | FeatureEnd string

fun render :: "stmt \<Rightarrow> string" where
  "render (Raw s) = s"
| "render (LookupBegin n) = ''lookup '' @ n @ '' {''"
| "render (LookupFlag f) = ''  lookupflag '' @ f @ '';''"
| "render (Rule s) = s"
| "render (LookupEnd n) = ''} '' @ n @ '';''"
| "render (FeatureBegin f) = ''feature '' @ f @ '' {''"
| "render (Script s) = '' script '' @ s @ '';''"
| "render (Language l) =
     ''     language '' @ l @ '' '' @ (if l \<noteq> ''dflt'' then ''exclude_dflt'' else '''') @ '';''"
| "render (LookupRef n) = ''      lookup '' @ n @ '';''"
| "render (FeatureEnd f) = ''} '' @ f @ '';''"

fun join :: "string \<Rightarrow> string list \<Rightarrow> string" where
  "join sep [] = []"
| "join sep [x] = x"
| "join sep (x # y # ys) = x @ sep @ join sep (y # ys)"

definition flag_text :: "string list \<Rightarrow> string" where
  "flag_text flags = (if flags = [] \<or> join '' '' flags = [] then ''0'' else join '' '' flags)"

definition lookup_block :: "resolved \<times> string list \<Rightarrow> stmt list" where
  "lookup_block rb =
     [Raw [], LookupBegin (name_of (fst rb)),
      LookupFlag (flag_text (fst (snd (fst (snd (snd (fst rb)))))))] @
     map Rule (snd rb) @ [LookupEnd (name_of (fst rb))]"

definition language_block :: "string \<times> string list \<Rightarrow> stmt list" where
  "language_block l = Language (fst l) # map LookupRef (snd l)"

definition script_block :: "string \<times> (string \<times> string list) list \<Rightarrow> stmt list" where
  "script_block s = [Raw [], Script (fst s)] @ concat (map language_block (snd s))"

definition feature_block ::
  "string \<times> (string \<times> (string \<times> string list) list) list \<Rightarrow> stmt list" where
  "feature_block f =
     [Raw [], FeatureBegin (fst f)] @ concat (map script_block (snd f)) @ [FeatureEnd (fst f)]"

definition writeGSUBGPOS ::
  "(string \<Rightarrow> string list \<Rightarrow> error + string list) \<Rightarrow> 'f fstate \<Rightarrow> bool \<Rightarrow>
   error + ((string \<times> string) list \<times> stmt list option)" where
  "writeGSUBGPOS body st isgpos =
     (case sanitize_all (lookupInfo st) (sanitizedLookupNames st)
             (map (\<lambda>ls. (fst ls, Some isgpos)) (tableLookups st isgpos)) of
        Inl e \<Rightarrow> Inl e
      | Inr memo \<Rightarrow>
         (let lookups = filter (\<lambda>ls. py_any (pruneSubtables st (snd ls) isgpos))
                          (tableLookups st isgpos)
          in if lookups = [] then Inr (memo, None)
             else
               (case mapM (resolve_lookup (lookupInfo st) memo) lookups of
                  Inl e \<Rightarrow> Inl e
                | Inr rs \<Rightarrow>
                   (case mapM (\<lambda>r. case body (fst r) (fst (snd r)) of
                                      Inl e \<Rightarrow> Inl e
                                    | Inr b \<Rightarrow> Inr (r, b)) rs of
                      Inl e \<Rightarrow> Inl e
                    | Inr blocks \<Rightarrow>
                        Inr (memo,
                             Some ([Raw (''# '' @ (if isgpos then ''GPOS'' else ''GSUB'') @ '' ''), Raw []] @
                                   concat (map lookup_block blocks) @
                                   concat (map feature_block (build_features rs)) @
                                   [Raw []]))))))"

text \<open>
  \<open>parse\<close> runs the writer on the GSUB table and then on the GPOS table; the second pass
  starts from the memo of the first. A pass that returns early emits nothing. The rule
  writers of the two passes are the parameters \<open>subs\<close> and \<open>poss\<close>.
\<close>

definition emitted :: "stmt list option \<Rightarrow> stmt list" where
  "emitted out = (case out of None \<Rightarrow> [] | Some stmts \<Rightarrow> stmts)"

definition writeTables ::
  "(string \<Rightarrow> string list \<Rightarrow> error + string list) \<Rightarrow>
   (string \<Rightarrow> string list \<Rightarrow> error + string list) \<Rightarrow> 'f fstate \<Rightarrow>
   error + ((string \<times> string) list \<times> stmt list)" where
  "writeTables subs poss st =
     (case writeGSUBGPOS subs st False of
        Inl e \<Rightarrow> Inl e
      | Inr (memo1, gsub) \<Rightarrow>
         (case writeGSUBGPOS poss (st\<lparr>sanitizedLookupNames := memo1\<rparr>) True of
            Inl e \<Rightarrow> Inl e
          | Inr (memo2, gpos) \<Rightarrow> Inr (memo2, emitted gsub @ emitted gpos)))"

definition features_text :: "stmt list \<Rightarrow> string" where
  "features_text stmts = join [CHR 0x0A] (map render stmts)"

section \<open>A small font source for the examples\<close>

definition nl :: "string \<Rightarrow> string" where
  "nl s = s @ [CHR 0x0A]"

definition env0 :: "unit env" where
  "env0 = \<lparr>py_float = (\<lambda>s. if s = ''3.0'' then Some (Finite 3)
                             else if s = ''2.0'' then Some (Finite 2) else None),
           SFDReadUTF7 = (\<lambda>s. s),
           altUnicodes = (\<lambda>name v. Inr []),
           parseSplineSet = (\<lambda>ls. Inr []),
           glyphRecord = (\<lambda>key v name r st. Inr ()),
           fontRecord = (\<lambda>key v data i st. Inr (i, ())),
           layerRecord = (\<lambda>v. Inl External),
           resolve = (\<lambda>st. Inr ()),
           fontAscender = (\<lambda>st. Inr (ascender (info st))),
           fontDescender = (\<lambda>st. Inr (descender (info st))),
           fontBounds = (\<lambda>st. \<lparr>xMin = 0, yMin = - 200, xMax = 600, yMax = 750\<rparr>),
           writeFeatures = (\<lambda>st. Inr ()),
           styleFallback = (\<lambda>x. x)\<rparr>"

definition font0 :: "unit state" where
  "font0 = \<lparr>info = \<lparr>ascender = None, descender = None, unitsPerEm = None,
                     openTypeHheaAscender = None, openTypeHheaDescender = None,
                     openTypeOS2TypoAscender = None, openTypeOS2TypoDescender = None,
                     openTypeOS2WinAscent = None, openTypeOS2WinDescent = None\<rparr>,
            layers = [Layer [], DefaultLayer, Layer []],
            layerType = [Some False, Some False, Some False],
            defaultLayer = [], glyphOrder = [], ext = ()\<rparr>"

definition glyphA :: glyph where
  "glyphA = \<lparr>width = 500, height = 0, unicodes = [65], outline = []\<rparr>"

definition info0 :: fontinfo where
  "info0 = \<lparr>ascender = Some 800, descender = Some (- 200), unitsPerEm = None,
             openTypeHheaAscender = None, openTypeHheaDescender = None,
             openTypeOS2TypoAscender = None, openTypeOS2TypoDescender = None,
             openTypeOS2WinAscent = Some 50, openTypeOS2WinDescent = None\<rparr>"

definition sfd0 :: "string list" where
  "sfd0 = map nl
     [''SplineFontDB: 3.0'', ''Ascent: 800'', ''Descent: 200'', ''OS2WinAscent: 50'',
      ''OS2WinAOffset: 1'', ''LayerCount: 2'', ''BeginChars: 1 1'', ''StartChar: A'',
      ''Encoding: 65 65 0'', ''Width: 500'', ''EndChar'', ''EndChars'', ''EndSplineFont'']"

definition sfd1 :: "string list" where
  "sfd1 = map nl
     [''SplineFontDB: 3.0'', ''Ascent: 800'', ''Descent: 200'', ''OS2TypoAscent: 10'',
      ''OS2TypoAOffset: 1'', ''OS2WinAscent: 50'', ''OS2WinAOffset: 1'', ''OS2WinDescent: 7'',
      ''OS2WinDOffset: 0'', ''LayerCount: 2'', ''BeginChars: 1 1'', ''StartChar: A'',
      ''Encoding: 65 65 0'', ''Width: 500'', ''EndChar'', ''EndChars'', ''EndSplineFont'']"


definition linfo0 :: "(string \<times> lookup_info) list" where
  "linfo0 =
     [(''a b'', (''gsub_single'', [], [(''liga'', [(''DFLT'', [''dflt'']), (''latn'', [''dflt''])])])),
      (''a-b'', (''gsub_ligature'', [], [(''liga'', [(''DFLT'', [''dflt'']), (''latn'', [''dflt''])])]))]"

definition fst0 :: "unit fstate" where
  "fst0 = \<lparr>gsubLookups = [(''Single 1'', [''Single 1-1'']), (''Liga 1'', [''Liga 1-1''])],
           gposLookups = [(''Kern 1'', [''Kern 1-1'']), (''Mark 1'', [''Mark 1-1''])],
           lookupInfo =
             [(''Single 1'', (''gsub_single'', [], [(''smcp'', [(''latn'', [''dflt''])])])),
              (''Liga 1'', (''gsub_ligature'', [''IgnoreMarks''],
                            [(''liga'', [(''DFLT'', [''dflt'']), (''latn'', [''dflt'', ''TRK ''])])])),
              (''Kern 1'', (''gpos_pair'', [], [(''kern'', [(''latn'', [''dflt''])])])),
              (''Mark 1'', (''gpos_mark2base'', [], [(''mark'', [(''latn'', [''dflt''])])]))],
           anchorClasses = [(''Mark 1-1'', [''top''])],
           glyphPosSub = [(''f_i'', [(''Liga 1-1'', [()])])],
           sanitizedLookupNames = []\<rparr>"

section \<open>Properties of contour drawing\<close>

lemma draw_segments_forceOpen:
  "draw_segments q segs = Inr (f, e) \<Longrightarrow>
   \<forall>seg\<in>set segs. \<forall>flag. segment_flag (snd (snd seg)) = Inr flag \<longrightarrow> flag AND 0x400 = 0 \<Longrightarrow>
   \<not> f"
proof (induction segs arbitrary: f e)
  case Nil
  then show ?case by simp
next
  case (Cons seg segs)
  obtain pts ty flags where seg: "seg = (pts, ty, flags)" by (cases seg)
  from Cons.prems(1) obtain f1 e1 where a: "draw_segment q seg = Inr (f1, e1)"
    by (cases "draw_segment q seg") auto
  from Cons.prems(1) a obtain f2 e2 where b: "draw_segments q segs = Inr (f2, e2)"
    by (cases "draw_segments q segs") auto
  from Cons.prems(1) a b have f: "f = (f1 \<or> f2)" by simp
  from Cons.prems(2) have "\<not> f2" using Cons.IH[OF b] by simp
  moreover have "\<not> f1"
    using a Cons.prems(2) unfolding seg draw_segment_def
    by (auto simp: Let_def split: sum.splits if_splits list.splits)
  ultimately show ?case using f by simp
qed

lemma close_path_closed:
  "1 < length e \<Longrightarrow> fst (hd e) = fst (last e) \<Longrightarrow>
   close_path False e = last e # butlast (tl e)"
  by (cases e) (auto simp: close_path_def)

lemma draw_segments_fail:
  "seg \<in> set segs \<Longrightarrow> draw_segment q seg = Inl e \<Longrightarrow> \<exists>e'. draw_segments q segs = Inl e'"
  by (induction segs) (auto split: sum.splits)

lemma drawContours_fail:
  "c \<in> set cs \<Longrightarrow> draw_contour q c = Inl e \<Longrightarrow> \<exists>e'. drawContours q cs = Inl e'"
  by (induction cs) (auto split: sum.splits)

lemma draw_contour_fail:
  "seg \<in> set (fst c) \<Longrightarrow> draw_segment q seg = Inl e \<Longrightarrow> \<exists>e'. draw_contour q c = Inl e'"
  using draw_segments_fail[of seg "fst c" q e] by (auto simp: draw_contour_def)

text \<open>
  Claim C3, as amended. A contour that no segment forces open (bit \<open>0x400\<close> unset on every
  segment), that emits more than one point and whose first and last emitted points have
  equal coordinates, is stored without its last point: the first stored point is the
  dropped point (its coordinates, segment type and smoothness), so the contour has one
  point fewer and, the dropped point not being a \<open>move\<close>, it is closed for the pen. A
  contour that emits a single point is stored as it is.
\<close>

theorem closed_contour_collapses:
  assumes "draw_segments quadratic segs = Inr (forceOpen, e)"
    and "\<forall>seg\<in>set segs. \<forall>flag. segment_flag (snd (snd seg)) = Inr flag \<longrightarrow> flag AND 0x400 = 0"
  shows "(1 < length e \<and> fst (hd e) = fst (last e) \<longrightarrow>
           (\<exists>stored. draw_contour quadratic (segs, name) = Inr stored \<and>
              stored = last e # butlast (tl e) \<and>
              length stored = length e - 1 \<and>
              hd stored = last e \<and>
              (fst (snd (last e)) \<noteq> Some ''move'' \<longrightarrow> \<not> is_open stored))) \<and>
         (length e \<le> 1 \<longrightarrow> draw_contour quadratic (segs, name) = Inr e)"
proof -
  have nf: "\<not> forceOpen" using draw_segments_forceOpen[OF assms(1,2)] .
  have a: "\<exists>stored. draw_contour quadratic (segs, name) = Inr stored \<and>
              stored = last e # butlast (tl e) \<and>
              length stored = length e - 1 \<and>
              hd stored = last e \<and>
              (fst (snd (last e)) \<noteq> Some ''move'' \<longrightarrow> \<not> is_open stored)"
    if l: "1 < length e" and c: "fst (hd e) = fst (last e)"
  proof -
    from nf assms(1) l c
    have "draw_contour quadratic (segs, name) = Inr (last e # butlast (tl e))"
      by (simp add: draw_contour_def close_path_closed)
    then show ?thesis using l by (simp add: is_open_def)
  qed
  have b: "draw_contour quadratic (segs, name) = Inr e" if "length e \<le> 1"
    using that assms(1) by (simp add: draw_contour_def close_path_def)
  show ?thesis using a b by blast
qed

lemma draw_segments_append:
  "draw_segments q (xs @ ys) =
     (case draw_segments q xs of
        Inl e \<Rightarrow> Inl e
      | Inr (f, ps) \<Rightarrow>
         (case draw_segments q ys of
            Inl e \<Rightarrow> Inl e
          | Inr (f', ps') \<Rightarrow> Inr (f \<or> f', ps @ ps')))"
  by (induction xs) (auto split: sum.splits)

lemma drawContours_append:
  "drawContours q (xs @ ys) =
     (case drawContours q xs of
        Inl e \<Rightarrow> Inl e
      | Inr us \<Rightarrow>
         (case drawContours q ys of
            Inl e \<Rightarrow> Inl e
          | Inr us' \<Rightarrow> Inr (us @ us')))"
  by (induction xs) (auto split: sum.splits)

lemma draw_segments_stop:
  "draw_segments q pre = Inr (f, u) \<Longrightarrow> draw_segment q seg = Inl e \<Longrightarrow>
   draw_segments q (pre @ seg # post) = Inl e"
  by (simp add: draw_segments_append)

lemma drawContours_stop:
  "drawContours q cs1 = Inr us \<Longrightarrow> draw_contour q c = Inl e \<Longrightarrow>
   drawContours q (cs1 @ c # cs2) = Inl e"
  by (simp add: drawContours_append)

lemma draw_contour_mid:
  "draw_segments q pre = Inr (f1, u1) \<Longrightarrow> draw_segment q seg = Inr (f, ps) \<Longrightarrow>
   draw_segments q post = Inr (f2, u2) \<Longrightarrow>
   draw_contour q (pre @ seg # post, name) = Inr (close_path (f1 \<or> f \<or> f2) (u1 @ ps @ u2))"
  by (simp add: draw_contour_def draw_segments_append)

lemma drawContours_mid:
  "drawContours q cs1 = Inr us1 \<Longrightarrow> draw_contour q c = Inr u \<Longrightarrow>
   drawContours q cs2 = Inr us2 \<Longrightarrow>
   drawContours q (cs1 @ c # cs2) = Inr (us1 @ u # us2)"
  by (simp add: drawContours_append)

text \<open>
  Claim C8. Take a curve segment with the three listed points \<open>p0\<close>, \<open>p1\<close>, \<open>p2\<close>,
  anywhere in a contour (after the segments \<open>pre\<close>, before the segments \<open>post\<close>) of a
  list of contours. On a quadratic layer, when \<open>p0\<close> and \<open>p1\<close> differ, \<open>_drawContours\<close>
  raises: some exception on every list that holds the segment, and the \<open>AssertionError\<close>
  itself when what comes before the segment draws. When the two points are equal the
  contour is drawn with the duplicate dropped: the segment contributes the control point
  \<open>p0\<close> and the \<open>qcurve\<close> point \<open>p2\<close> (both untyped under the interpolation bit \<open>0x80\<close>)
  between the points of \<open>pre\<close> and of \<open>post\<close>. On a cubic layer any three points are
  drawn, two control points and the \<open>curve\<close> point. The points of the contour then pass
  through the closing of the path.
\<close>

theorem quadratic_curve_points:
  assumes "segment_flag flags = Inr flag"
  shows "(p0 \<noteq> p1 \<longrightarrow>
            (\<forall>segs name cs. ([p0, p1, p2], ''c'', flags) \<in> set segs \<and> (segs, name) \<in> set cs \<longrightarrow>
               (\<exists>e. drawContours True cs = Inl e)) \<and>
            (\<forall>cs1 us1 pre f1 u1 post name cs2.
               drawContours True cs1 = Inr us1 \<and> draw_segments True pre = Inr (f1, u1) \<longrightarrow>
               drawContours True (cs1 @ (pre @ ([p0, p1, p2], ''c'', flags) # post, name) # cs2)
                 = Inl AssertionError)) \<and>
         (\<forall>cs1 us1 pre f1 u1 post f2 u2 name cs2 us2.
            drawContours True cs1 = Inr us1 \<and> draw_segments True pre = Inr (f1, u1) \<and>
            draw_segments True post = Inr (f2, u2) \<and> drawContours True cs2 = Inr us2 \<longrightarrow>
            drawContours True (cs1 @ (pre @ ([p0, p0, p2], ''c'', flags) # post, name) # cs2)
              = Inr (us1 @
                     close_path (f1 \<or> flag AND 0x400 \<noteq> 0 \<or> f2)
                       (u1 @
                        (if flag AND 0x80 \<noteq> 0 then [offcurve p0, offcurve p2]
                         else [offcurve p0, (p2, Some ''qcurve'', Some (flag AND 0x3 \<noteq> 1))]) @
                        u2) #
                     us2)) \<and>
         (\<forall>cs1 us1 pre f1 u1 post f2 u2 name cs2 us2.
            drawContours False cs1 = Inr us1 \<and> draw_segments False pre = Inr (f1, u1) \<and>
            draw_segments False post = Inr (f2, u2) \<and> drawContours False cs2 = Inr us2 \<longrightarrow>
            drawContours False (cs1 @ (pre @ ([p0, p1, p2], ''c'', flags) # post, name) # cs2)
              = Inr (us1 @
                     close_path (f1 \<or> flag AND 0x400 \<noteq> 0 \<or> f2)
                       (u1 @
                        [offcurve p0, offcurve p1, (p2, Some ''curve'', Some (flag AND 0x3 \<noteq> 1))] @
                        u2) #
                     us2))"
proof -
  have a: "p0 \<noteq> p1 \<Longrightarrow> draw_segment True ([p0, p1, p2], ''c'', flags) = Inl AssertionError"
    using assms by (simp add: draw_segment_def)
  have b: "\<exists>e. drawContours True cs = Inl e"
    if h1: "p0 \<noteq> p1" and h2: "([p0, p1, p2], ''c'', flags) \<in> set segs"
      and h3: "(segs, name) \<in> set cs"
    for segs name cs
  proof -
    obtain e' where "draw_contour True (segs, name) = Inl e'"
      using draw_contour_fail[of _ "(segs, name)", OF _ a[OF h1]] h2 by auto
    then show ?thesis using drawContours_fail[OF h3] by blast
  qed
  have b': "drawContours True (cs1 @ (pre @ ([p0, p1, p2], ''c'', flags) # post, name) # cs2)
                 = Inl AssertionError"
    if h1: "p0 \<noteq> p1" and h2: "drawContours True cs1 = Inr us1"
      and h3: "draw_segments True pre = Inr (f1, u1)"
    for cs1 us1 pre f1 u1 post name cs2
  proof -
    have "draw_contour True (pre @ ([p0, p1, p2], ''c'', flags) # post, name) = Inl AssertionError"
      using draw_segments_stop[OF h3 a[OF h1]] by (simp add: draw_contour_def)
    from drawContours_stop[OF h2 this] show ?thesis .
  qed
  have c: "draw_segment True ([p0, p0, p2], ''c'', flags) =
           Inr (flag AND 0x400 \<noteq> 0,
                if flag AND 0x80 \<noteq> 0 then [offcurve p0, offcurve p2]
                else [offcurve p0, (p2, Some ''qcurve'', Some (flag AND 0x3 \<noteq> 1))])"
    using assms by (simp add: draw_segment_def)
  have d: "draw_segment False ([p0, p1, p2], ''c'', flags) =
           Inr (flag AND 0x400 \<noteq> 0,
                [offcurve p0, offcurve p1, (p2, Some ''curve'', Some (flag AND 0x3 \<noteq> 1))])"
    using assms by (simp add: draw_segment_def)
  have c': "drawContours True (cs1 @ (pre @ ([p0, p0, p2], ''c'', flags) # post, name) # cs2)
              = Inr (us1 @
                     close_path (f1 \<or> flag AND 0x400 \<noteq> 0 \<or> f2)
                       (u1 @
                        (if flag AND 0x80 \<noteq> 0 then [offcurve p0, offcurve p2]
                         else [offcurve p0, (p2, Some ''qcurve'', Some (flag AND 0x3 \<noteq> 1))]) @
                        u2) #
                     us2)"
    if h1: "drawContours True cs1 = Inr us1" and h2: "draw_segments True pre = Inr (f1, u1)"
      and h3: "draw_segments True post = Inr (f2, u2)" and h4: "drawContours True cs2 = Inr us2"
    for cs1 us1 pre f1 u1 post f2 u2 name cs2 us2
    using drawContours_mid[OF h1 draw_contour_mid[OF h2 c h3] h4] .
  have d': "drawContours False (cs1 @ (pre @ ([p0, p1, p2], ''c'', flags) # post, name) # cs2)
              = Inr (us1 @
                     close_path (f1 \<or> flag AND 0x400 \<noteq> 0 \<or> f2)
                       (u1 @
                        [offcurve p0, offcurve p1, (p2, Some ''curve'', Some (flag AND 0x3 \<noteq> 1))] @
                        u2) #
                     us2)"
    if h1: "drawContours False cs1 = Inr us1" and h2: "draw_segments False pre = Inr (f1, u1)"
      and h3: "draw_segments False post = Inr (f2, u2)" and h4: "drawContours False cs2 = Inr us2"
    for cs1 us1 pre f1 u1 post f2 u2 name cs2 us2
    using drawContours_mid[OF h1 draw_contour_mid[OF h2 d h3] h4] .
  show ?thesis
    apply (intro conjI impI allI)
    subgoal using b by blast
    subgoal by (elim conjE) (rule b', assumption+)
    subgoal by (elim conjE) (rule c', assumption+)
    subgoal by (elim conjE) (rule d', assumption+)
    done
qed


lemma sf1: "segment_flag ''1'' = Inr 1" by code_simp
lemma sf2: "segment_flag ''2'' = Inr 2" by code_simp

text \<open>
  Claim C3 as stated fails on a contour of a single point: nothing forces it open, its
  first and last emitted points are the same point, and it is stored whole and open.
\<close>

theorem single_point_contour_stays:
  "draw_segments False [([(0, 0)], ''m'', ''1'')] = Inr (False, [((0, 0), Some ''move'', Some False)]) \<and>
   fst (hd [((0, 0) :: point, Some ''move'', Some False)]) = fst (last [((0, 0) :: point, Some ''move'', Some False)]) \<and>
   draw_contour False ([([(0, 0)], ''m'', ''1'')], None) = Inr [((0, 0), Some ''move'', Some False)] \<and>
   is_open [((0, 0) :: point, Some ''move'', Some False)]"
  by code_simp

theorem closed_contour_collapses_witness:
  "draw_contour False ([([(0, 0)], ''m'', ''1''), ([(5, 0)], ''l'', ''1''), ([(0, 0)], ''l'', ''2'')], None)
     = Inr [((0, 0), Some ''line'', Some True), ((5, 0), Some ''line'', Some False)]"
proof -
  let ?segs = "[([(0, 0)], ''m'', ''1''), ([(5, 0)], ''l'', ''1''), ([(0, 0)], ''l'', ''2'')] :: segment list"
  let ?e = "[((0, 0), Some ''move'', Some False), ((5, 0), Some ''line'', Some False),
             ((0, 0), Some ''line'', Some True)] :: upoint list"
  have 1: "draw_segments False ?segs = Inr (False, ?e)"
    by (simp add: draw_segment_def sf1 sf2)
  have 2: "\<forall>seg\<in>set ?segs. \<forall>flag. segment_flag (snd (snd seg)) = Inr flag \<longrightarrow> flag AND 0x400 = 0"
    by (auto simp: sf1 sf2)
  have 3: "1 < length ?e" by simp
  have 4: "fst (hd ?e) = fst (last ?e)" by simp
  show ?thesis using closed_contour_collapses[OF 1 2, of None] 3 4 by auto
qed

theorem quadratic_curve_points_witness:
  "drawContours True
     [([([(0, 0)], ''m'', ''1''), ([(0, 1), (1, 1), (2, 0)], ''c'', ''2''), ([(0, 5)], ''l'', ''1'')], None)]
     = Inl AssertionError \<and>
   drawContours True
     [([([(0, 0)], ''m'', ''1''), ([(1, 1), (1, 1), (2, 0)], ''c'', ''2''), ([(0, 5)], ''l'', ''1'')], None)]
     = Inr [[((0, 0), Some ''move'', Some False), ((1, 1), None, None),
             ((2, 0), Some ''qcurve'', Some True), ((0, 5), Some ''line'', Some False)]] \<and>
   drawContours False
     [([([(0, 0)], ''m'', ''1''), ([(0, 1), (1, 1), (2, 0)], ''c'', ''2''), ([(0, 5)], ''l'', ''1'')], None)]
     = Inr [[((0, 0), Some ''move'', Some False), ((0, 1), None, None), ((1, 1), None, None),
             ((2, 0), Some ''curve'', Some True), ((0, 5), Some ''line'', Some False)]]"
proof -
  let ?m = "([(0, 0)], ''m'', ''1'') :: segment" and ?l = "([(0, 5)], ''l'', ''1'') :: segment"
  have ne: "((0, 1) :: point) \<noteq> (1, 1)" by simp
  have e: "drawContours q [] = Inr []" for q by simp
  have pre: "draw_segments q [?m] = Inr (False, [((0, 0), Some ''move'', Some False)])" for q
    by (simp add: draw_segment_def sf1)
  have post: "draw_segments q [?l] = Inr (False, [((0, 5), Some ''line'', Some False)])" for q
    by (simp add: draw_segment_def sf1)
  note t1 = quadratic_curve_points[OF sf2, of "(0, 1)" "(1, 1)" "(2, 0)"]
  note t2 = quadratic_curve_points[OF sf2, of "(1, 1)" "(1, 1)" "(2, 0)"]
  have a: "drawContours True ([] @ ([?m] @ ([(0, 1), (1, 1), (2, 0)], ''c'', ''2'') # [?l], None) # [])
             = Inl AssertionError"
    by (rule t1[THEN conjunct1, rule_format, OF ne, THEN conjunct2, rule_format,
                OF conjI[OF e[of True] pre[of True]]])
  have b: "drawContours True ([] @ ([?m] @ ([(1, 1), (1, 1), (2, 0)], ''c'', ''2'') # [?l], None) # [])
             = Inr ([] @
                     close_path (False \<or> (2 :: int) AND 0x400 \<noteq> 0 \<or> False)
                       ([((0, 0), Some ''move'', Some False)] @
                        (if (2 :: int) AND 0x80 \<noteq> 0 then [offcurve (1, 1), offcurve (2, 0)]
                         else [offcurve (1, 1), ((2, 0), Some ''qcurve'', Some ((2 :: int) AND 0x3 \<noteq> 1))]) @
                        [((0, 5), Some ''line'', Some False)]) #
                     [])"
    by (rule t2[THEN conjunct2, THEN conjunct1, rule_format,
                OF conjI[OF e[of True] conjI[OF pre[of True] conjI[OF post[of True] e[of True]]]]])
  have c: "drawContours False ([] @ ([?m] @ ([(0, 1), (1, 1), (2, 0)], ''c'', ''2'') # [?l], None) # [])
             = Inr ([] @
                     close_path (False \<or> (2 :: int) AND 0x400 \<noteq> 0 \<or> False)
                       ([((0, 0), Some ''move'', Some False)] @
                        [offcurve (0, 1), offcurve (1, 1), ((2, 0), Some ''curve'', Some ((2 :: int) AND 0x3 \<noteq> 1))] @
                        [((0, 5), Some ''line'', Some False)]) #
                     [])"
    by (rule t1[THEN conjunct2, THEN conjunct2, rule_format,
                OF conjI[OF e[of False] conjI[OF pre[of False] conjI[OF post[of False] e[of False]]]]])
  have k: "(2 :: int) AND 0x400 = 0" "(2 :: int) AND 0x80 = 0" "(2 :: int) AND 0x3 = 2" by simp_all
  show ?thesis using a b c by (simp add: k close_path_def offcurve_def)
qed

section \<open>Properties of the offset metrics\<close>



lemma getattr_setattr_same: "getattr_info (setattr_info fi m v) m = v"
  by (cases m) simp_all









section \<open>Properties of the glyph parser\<close>

lemma glyph_key_Encoding: "(glyph_key key = KEncoding) = (key = ''Encoding'')"
  unfolding glyph_key_def LAYER_KEYWORDS_def GLYPH_RECORD_KEYS_def by simp

lemma switch_layer_order:
  "switch_layer name key v cl st = Inr (cl', st') \<Longrightarrow> c_order cl' = c_order cl"
  unfolding switch_layer_def
  by (auto split: sum.splits option.splits slot.splits)

lemma char_record_order:
  assumes "char_record env name data i line (cl, st) = Inr (i', cl', st')"
  shows "c_order cl' = (if record_key line = ''Encoding'' then rank_of line else c_order cl)"
proof (cases "glyph_key (record_key line)")
  case KEncoding
  then have k: "record_key line = ''Encoding''" by (simp add: glyph_key_Encoding)
  from assms KEncoding show ?thesis
    unfolding char_record_def Let_def rank_of_def k
    by (auto split: sum.splits)
next
  case KLayer
  then have k: "record_key line \<noteq> ''Encoding''" using glyph_key_Encoding[of "record_key line"] by simp
  from assms KLayer show ?thesis
    unfolding char_record_def Let_def
    by (auto simp: k split: sum.splits dest: switch_layer_order)
qed (use assms glyph_key_Encoding[of "record_key line"] in
      \<open>auto simp: char_record_def Let_def split: sum.splits option.splits\<close>)

lemma char_record_next:
  assumes "i < int (length data)" and "py_index data i = Some line"
    and "char_record env name data (i + 1) line cs = Inr (i', cs')"
  shows "top_records data i = line # top_records data i'"
proof -
  from assms(1,2) have tr: "top_records data i =
        (case glyph_key (record_key line) of
           KSplineSet \<Rightarrow>
             (case getSection data (i + 1) ''EndSplineSet'' [] of
                Inl e \<Rightarrow> [line]
              | Inr (sec, i') \<Rightarrow> line # top_records data i')
         | KImage \<Rightarrow>
             (case getSection data (i + 1) ''EndImage'' (section_seed (record_value line)) of
                Inl e \<Rightarrow> [line]
              | Inr (sec, i') \<Rightarrow> line # top_records data i')
         | _ \<Rightarrow> line # top_records data (i + 1))"
    by (subst top_records.simps) simp
  show ?thesis
    using assms(3) unfolding tr char_record_def Let_def
    by (cases "glyph_key (record_key line)") (auto split: sum.splits option.splits)
qed

lemma parse_records_order:
  "parse_records env name data i cs = Inr cs' \<Longrightarrow>
   c_order (fst cs') =
     (if filter (\<lambda>l. record_key l = ''Encoding'') (top_records data i) = [] then c_order (fst cs)
      else rank_of (last (filter (\<lambda>l. record_key l = ''Encoding'') (top_records data i))))"
proof (induction env name data i cs rule: parse_records.induct)
  case (1 env name data i cs)
  show ?case
  proof (cases "i < int (length data)")
    case False
    with "1.prems" have "cs' = cs" by (simp add: parse_records.simps[of env name data i])
    moreover from False have "top_records data i = []" by (simp add: top_records.simps[of data i])
    ultimately show ?thesis by simp
  next
    case True
    with "1.prems" obtain line where line: "py_index data i = Some line"
      by (cases "py_index data i") (auto simp: parse_records.simps[of env name data i])
    with True "1.prems" obtain i' cs1 where
      step: "char_record env name data (i + 1) line cs = Inr (i', cs1)"
      and rest: "parse_records env name data i' cs1 = Inr cs'"
      by (cases "char_record env name data (i + 1) line cs")
         (auto simp: parse_records.simps[of env name data i])
    have ih: "c_order (fst cs') =
       (if filter (\<lambda>l. record_key l = ''Encoding'') (top_records data i') = [] then c_order (fst cs1)
        else rank_of (last (filter (\<lambda>l. record_key l = ''Encoding'') (top_records data i'))))"
      using "1.IH"[OF True line step refl rest] .
    have top: "top_records data i = line # top_records data i'"
      using char_record_next[OF True line step] .
    have ord: "c_order (fst cs1) = (if record_key line = ''Encoding'' then rank_of line else c_order (fst cs))"
      using char_record_order[of env name data "i + 1" line "fst cs" "snd cs" i' "fst cs1" "snd cs1"] step
      by simp
    show ?thesis unfolding top using ih ord by simp
  qed
qed

text \<open>
  Claim C10. When \<open>_parseChar\<close> returns, the glyph section holds an \<open>Encoding\<close> record
  among its records (the lines outside \<open>SplineSet\<close> and \<open>Image\<close> sections), and the rank
  returned is the third field of the last of them; a section without such a record makes
  \<open>_parseChar\<close> raise.
\<close>

theorem glyph_rank_from_last_encoding:
  "(parseChar env data st = Inr (name, order, st') \<longrightarrow>
      encoding_records (tl data) \<noteq> [] \<and>
      rank_of (last (encoding_records (tl data))) = Some order) \<and>
   (encoding_records (tl data) = [] \<longrightarrow> (\<exists>e. parseChar env data st = Inl e))"
proof -
  have a: "encoding_records (tl data) \<noteq> [] \<and>
           rank_of (last (encoding_records (tl data))) = Some order"
    if ok: "parseChar env data st = Inr (name, order, st')" for name order st'
  proof -
    from ok obtain first records where d: "data = first # records"
      by (cases data) (auto simp: parseChar_def)
    from ok d obtain u name0 where sp: "split_once '': '' first = Some (u, name0)"
      by (cases "split_once '': '' first") (auto simp: parseChar_def)
    define nm where "nm = (if starts_with name0 [CHR 0x22] then SFDReadUTF7 env name0 else name0)"
    define cl0 where "cl0 = \<lparr>c_layerGlyph = InDefault, c_unicodes = [], c_quadratic = None,
                           c_order = None\<rparr>"
    from ok d sp obtain cl' st2 where
      run: "parse_records env nm records 0 (cl0, font_newGlyph nm st) = Inr (cl', st2)"
      and ord: "c_order cl' = Some order"
      unfolding parseChar_def nm_def cl0_def
      by (auto simp: Let_def split: if_splits sum.splits option.splits)
    from parse_records_order[OF run] ord show ?thesis
      unfolding encoding_records_def d cl0_def by (auto split: if_splits)
  qed
  have b: "\<exists>e. parseChar env data st = Inl e" if "encoding_records (tl data) = []"
  proof (cases "parseChar env data st")
    case (Inl e) then show ?thesis by blast
  next
    case (Inr r)
    obtain name order st' where "r = (name, order, st')" by (cases r)
    with Inr a that show ?thesis by blast
  qed
  show ?thesis using a b by blast
qed












section \<open>Properties of the font parser\<close>

text \<open>
  Claim C1. When the first line is not a \<open>SplineFontDB\<close> record whose value \<open>float()\<close>
  reads as 3.0, \<open>parse\<close> raises the exception of the header check, whatever follows the
  line and whatever the font held: the check is the first thing the loop does, and no
  record handler runs before it. A first line \<open>SplineFontDB: 2.0\<close> raises the exception
  for an unsupported version.
\<close>

theorem version_gate:
  "(\<not> (fst (font_line line) = ''SplineFontDB'' \<and>
        (\<exists>v. snd (font_line line) = Some v \<and> py_float env v = Some (Finite 3))) \<longrightarrow>
      (\<exists>e. check_header env (fst (font_line line)) (snd (font_line line)) = Some e \<and>
           parse env (line # rest) glyphFiles st = Some (Inl e))) \<and>
   (font_line line = (''SplineFontDB'', Some ''2.0'') \<and> py_float env ''2.0'' = Some (Finite 2) \<longrightarrow>
      parse env (line # rest) glyphFiles st = Some (Inl (Exception ''Unsupported SFD version'')))"
proof -
  have step: "parse env (line # rest) glyphFiles st = Some (Inl e)"
    if "check_header env (fst (font_line line)) (snd (font_line line)) = Some e" for e
    using that unfolding parse_def
    by (subst scan.simps) (simp add: py_index_def)
  have a: "\<exists>e. check_header env (fst (font_line line)) (snd (font_line line)) = Some e"
    if "\<not> (fst (font_line line) = ''SplineFontDB'' \<and>
        (\<exists>v. snd (font_line line) = Some v \<and> py_float env v = Some (Finite 3)))"
    using that unfolding check_header_def
    by (auto split: option.splits)
  have b: "check_header env (fst (font_line line)) (snd (font_line line))
             = Some (Exception ''Unsupported SFD version'')"
    if "font_line line = (''SplineFontDB'', Some ''2.0'')" "py_float env ''2.0'' = Some (Finite 2)"
    using that unfolding check_header_def by simp
  show ?thesis using step a b by blast
qed

text \<open>
  Claim C9. When \<open>parse\<close> returns, the ascender and descender are set and \<open>unitsPerEm\<close> is
  their difference, whatever \<open>unitsPerEm\<close> was before and whatever the records of the file
  were.
\<close>

theorem units_per_em:
  assumes "parse env data glyphFiles st = Some (Inr st')"
  shows "\<exists>a d. ascender (info st') = Some a \<and> descender (info st') = Some d \<and>
               unitsPerEm (info st') = Some (a - d)"
proof -
  from assms obtain loc where fin: "finish env glyphFiles loc = Inr st'"
    unfolding parse_def by (auto split: option.splits sum.splits)
  then show ?thesis
    unfolding finish_def Let_def py_sub_def
    by (auto split: sum.splits option.splits if_splits)
qed



text \<open>
  A font object without the attribute \<open>ascender\<close>: the rule of the OS/2 typo ascender
  raises the error of the read.
\<close>

lemma typo_rule_reads_font:
  "fix_metric fi (Inl e) desc bbox OS2TypoAscender = Inl e \<and>
   fix_metric fi asc (Inl e) bbox OS2TypoDescender = Inl e \<and>
   parse (env0\<lparr>fontAscender := (\<lambda>st. Inl AttributeError)\<rparr>) sfd1 None font0
     = Some (Inl AttributeError)"
proof -
  have "parse (env0\<lparr>fontAscender := (\<lambda>st. Inl AttributeError)\<rparr>) sfd1 None font0
     = Some (Inl AttributeError)" by code_simp
  then show ?thesis by (simp add: fix_metric_def fixed_value_def)
qed




theorem version_gate_witness:
  "parse env0 (map nl [''SplineFontDB: 2.0'', ''FontName: X'']) None font0
     = Some (Inl (Exception ''Unsupported SFD version'')) \<and>
   (\<exists>e. parse env0 (map nl [''FontName: X'', ''SplineFontDB: 3.0'']) None font0 = Some (Inl e))"
proof -
  have l: "font_line (nl ''SplineFontDB: 2.0'') = (''SplineFontDB'', Some ''2.0'')" by code_simp
  have f: "py_float env0 ''2.0'' = Some (Finite 2)" by code_simp
  have k: "fst (font_line (nl ''FontName: X'')) \<noteq> ''SplineFontDB''" by code_simp
  show ?thesis
    using version_gate[of "nl ''SplineFontDB: 2.0''" env0 "[nl ''FontName: X'']" None font0]
          version_gate[of "nl ''FontName: X''" env0 "[nl ''SplineFontDB: 3.0'']" None font0]
          l f k
    by auto
qed

theorem units_per_em_witness:
  "\<exists>st'. parse env0 sfd0 None font0 = Some (Inr st') \<and>
         ascender (info st') = Some 800 \<and> descender (info st') = Some (- 200) \<and>
         unitsPerEm (info st') = Some 1000"
proof -
  let ?st = "font0\<lparr>info := info0\<lparr>unitsPerEm := Some 1000, openTypeOS2WinAscent := Some 800\<rparr>,
                    layers := [NoLayer, NoLayer], layerType := [None, None],
                    defaultLayer := [(''A'', glyphA)], glyphOrder := [''A'']\<rparr>"
  have run: "parse env0 sfd0 None font0 = Some (Inr ?st)" by code_simp
  have a: "ascender (info ?st) = Some 800" and d: "descender (info ?st) = Some (- 200)"
    by (simp_all add: info0_def)
  from units_per_em[OF run] a d have "unitsPerEm (info ?st) = Some 1000" by auto
  with run a d show ?thesis by blast
qed

theorem glyph_rank_from_last_encoding_witness:
  "rank_of (last (encoding_records [''Encoding: 65 65 3'', ''Width: 500'', ''Encoding: 65 65 7''])) = Some 7 \<and>
   (\<exists>e. parseChar env0 [''StartChar: A'', ''Width: 500''] font0 = Inl e)"
proof -
  let ?st = "font0\<lparr>defaultLayer := [(''A'', glyphA\<lparr>unicodes := [65, 65]\<rparr>)], glyphOrder := [''A'']\<rparr>"
  have run: "parseChar env0 [''StartChar: A'', ''Encoding: 65 65 3'', ''Width: 500'', ''Encoding: 65 65 7''] font0
               = Inr (''A'', 7, ?st)"
    by code_simp
  have none: "encoding_records (tl [''StartChar: A'', ''Width: 500'']) = []" by code_simp
  show ?thesis
    using glyph_rank_from_last_encoding[of env0
            "[''StartChar: A'', ''Encoding: 65 65 3'', ''Width: 500'', ''Encoding: 65 65 7'']"
            font0 "''A''" 7 ?st]
          glyph_rank_from_last_encoding[of env0 "[''StartChar: A'', ''Width: 500'']" font0]
          run none
    by simp
qed


text \<open>
  Claim C4 fails on the record \<open>Layer: 0\<close>: \<open>value and int(value) or index\<close> takes the
  index of the keyword when \<open>int(value)\<close> is 0, so the record selects layer 2, and the
  per-layer glyph is created there, not in layer 0.
\<close>

theorem layer_zero_selects_layer_two:
  "layer_idx ''Back'' None = Inr 0 \<and> layer_idx ''Fore'' None = Inr 1 \<and>
   layer_idx ''Layer'' (Some ''1'') = Inr 1 \<and> layer_idx ''Layer'' (Some ''2'') = Inr 2 \<and>
   layer_idx ''Layer'' (Some ''0'') = Inr 2 \<and>
   parseChar env0 [''StartChar: A'', ''Encoding: 65 65 0'', ''Width: 500'', ''Layer: 0''] font0
     = Inr (''A'', 0,
            font0\<lparr>layers := [Layer [], DefaultLayer, Layer [(''A'', new_glyph\<lparr>width := 500\<rparr>)]],
                  defaultLayer := [(''A'', glyphA)], glyphOrder := [''A'']\<rparr>)"
  by code_simp

section \<open>Properties of the lookup names\<close>

lemma allowed_char_ascii: "allowed_char c \<Longrightarrow> (of_char c :: nat) < 127"
  by (auto simp: allowed_char_def is_alpha_def is_digit_def)

lemma alpha_not_digit: "is_alpha c \<Longrightarrow> \<not> is_digit c"
  by (auto simp: is_alpha_def is_digit_def)

lemma keep_chars_Suc: "keep_chars (Suc i) s = filter allowed_char s"
proof (induction s arbitrary: i)
  case Nil
  show ?case by simp
next
  case (Cons c s)
  show ?case
  proof (cases "(of_char c :: nat) \<ge> 127")
    case True
    then have "\<not> allowed_char c" using allowed_char_ascii[of c] by auto
    with True Cons show ?thesis by simp
  next
    case False
    with Cons show ?thesis by (auto simp: allowed_char_def)
  qed
qed

lemma keep_chars_0: "keep_chars 0 l = filter allowed_char (drop_digit0 l)"
proof (cases l)
  case Nil
  then show ?thesis by (simp add: drop_digit0_def)
next
  case (Cons c s)
  show ?thesis
  proof (cases "(of_char c :: nat) \<ge> 127")
    case True
    then have "\<not> allowed_char c" using allowed_char_ascii[of c] by auto
    moreover from this have "\<not> is_digit c" by (simp add: allowed_char_def)
    ultimately show ?thesis using True Cons by (simp add: drop_digit0_def keep_chars_Suc)
  next
    case False
    show ?thesis
    proof (cases "is_digit c")
      case True
      then have "\<not> is_alpha c" using alpha_not_digit[of c] by blast
      moreover from True have "c \<noteq> CHR ''.''" "c \<noteq> CHR ''_''" by (auto simp: is_digit_def)
      ultimately show ?thesis using True False Cons
        by (simp add: drop_digit0_def keep_chars_Suc)
    next
      case nd: False
      with False Cons show ?thesis
        by (simp add: drop_digit0_def keep_chars_Suc allowed_char_def)
    qed
  qed
qed

lemma base_name_filter: "base_name l = take 63 (filter allowed_char (drop_digit0 l))"
  by (simp add: base_name_def keep_chars_0)

lemma unique_name_shape:
  "\<exists>k. unique_name stem names i = stem @ dec (i + 2 * k) \<and>
       stem @ dec (i + 2 * k) \<notin> set names \<and>
       (\<forall>j<k. stem @ dec (i + 2 * j) \<in> set names)"
proof (induction stem names i rule: unique_name.induct)
  case (1 stem names i)
  show ?case
  proof (cases "stem @ dec i \<in> set names")
    case False
    then have "unique_name stem names i = stem @ dec (i + 2 * 0)"
      by (subst unique_name.simps) simp
    with False show ?thesis by (intro exI[of _ 0]) simp
  next
    case True
    from "1.IH"[OF True] obtain k where
      k: "unique_name stem names (i + 2) = stem @ dec (i + 2 + 2 * k)"
         "stem @ dec (i + 2 + 2 * k) \<notin> set names"
         "\<forall>j<k. stem @ dec (i + 2 + 2 * j) \<in> set names"
      by blast
    from True have u: "unique_name stem names i = unique_name stem names (i + 2)"
      by (subst unique_name.simps) simp
    have all: "\<forall>j<Suc k. stem @ dec (i + 2 * j) \<in> set names"
    proof (intro allI impI)
      fix j assume "j < Suc k"
      show "stem @ dec (i + 2 * j) \<in> set names"
      proof (cases j)
        case 0
        with True show ?thesis by simp
      next
        case (Suc j')
        with \<open>j < Suc k\<close> have "j' < k" by simp
        with k(3) have "stem @ dec (i + 2 + 2 * j') \<in> set names" by blast
        with Suc show ?thesis by (simp add: add.commute add.left_commute)
      qed
    qed
    show ?thesis
      using u k(1,2) all by (intro exI[of _ "Suc k"]) (simp add: add.commute add.left_commute)
  qed
qed

lemma memo_inv_inj:
  assumes "memo_inv memo" "map_of memo l1 = Some n" "map_of memo l2 = Some n"
  shows "l1 = l2"
proof -
  from assms(2,3) have a: "(l1, n) \<in> set memo" and b: "(l2, n) \<in> set memo"
    by (auto dest: map_of_SomeD)
  from assms(1) have "inj_on snd (set memo)"
    unfolding memo_inv_def by (simp add: distinct_map)
  from inj_onD[OF this _ a b] show ?thesis by simp
qed

lemma santize_hit:
  "map_of memo lookup = Some name \<Longrightarrow> santizeLookupName linfo memo lookup isgpos = Inr (memo, name)"
  by (simp add: santizeLookupName_def)

lemma santize_new:
  assumes "santizeLookupName linfo memo lookup isgpos = Inr (memo', name)"
    and "map_of memo lookup = None"
  shows "memo' = memo @ [(lookup, name)] \<and> name \<notin> snd ` set memo \<and>
         (base_name lookup \<notin> snd ` set memo \<longrightarrow> name = base_name lookup) \<and>
         (base_name lookup \<in> snd ` set memo \<longrightarrow>
            (\<exists>g kind flags fls feat script k.
               isgpos = Some g \<and> map_of linfo lookup = Some (kind, flags, fls) \<and>
               feat_script fls = Inr (feat, script) \<and>
               name = synth_stem g (short_kind kind) feat script @ dec (2 * k) \<and>
               (\<forall>j<k. synth_stem g (short_kind kind) feat script @ dec (2 * j) \<in> snd ` set memo)))"
proof -
  from assms obtain g where g: "isgpos = Some g"
    by (cases isgpos) (simp_all add: santizeLookupName_def)
  show ?thesis
  proof (cases "base_name lookup \<in> snd ` set memo")
    case False
    with assms g have "memo' = memo @ [(lookup, base_name lookup)]" "name = base_name lookup"
      by (auto simp: santizeLookupName_def)
    with False show ?thesis by simp
  next
    case True
    with assms g obtain inf where i0: "map_of linfo lookup = Some inf"
      by (cases "map_of linfo lookup") (simp_all add: santizeLookupName_def)
    obtain kind flags fls where inf: "inf = (kind, flags, fls)" by (cases inf)
    note i = i0[unfolded inf]
    with assms g True obtain fs where fs0: "feat_script fls = Inr fs"
      by (cases "feat_script fls") (simp_all add: santizeLookupName_def)
    obtain feat script where fsp: "fs = (feat, script)" by (cases fs)
    note fs = fs0[unfolded fsp]
    define stem where "stem = synth_stem g (short_kind kind) feat script"
    from assms g True i fs have n: "name = unique_name stem (map snd memo) 0"
      and m: "memo' = memo @ [(lookup, name)]"
      by (auto simp: santizeLookupName_def stem_def)
    from unique_name_shape[of stem "map snd memo" 0] obtain k where
      k1: "unique_name stem (map snd memo) 0 = stem @ dec (2 * k)"
      and k2: "stem @ dec (2 * k) \<notin> set (map snd memo)"
      and k3: "\<forall>j<k. stem @ dec (2 * j) \<in> set (map snd memo)"
      by auto
    have fresh: "name \<notin> snd ` set memo" using n k1 k2 by simp
    have ex: "\<exists>g kind flags fls feat script k.
               isgpos = Some g \<and> map_of linfo lookup = Some (kind, flags, fls) \<and>
               feat_script fls = Inr (feat, script) \<and>
               name = synth_stem g (short_kind kind) feat script @ dec (2 * k) \<and>
               (\<forall>j<k. synth_stem g (short_kind kind) feat script @ dec (2 * j) \<in> snd ` set memo)"
      apply (rule exI[of _ g], rule exI[of _ kind], rule exI[of _ flags], rule exI[of _ fls])
      apply (rule exI[of _ feat], rule exI[of _ script], rule exI[of _ k])
      using g i fs n k1 k3 by (simp add: stem_def)
    show ?thesis using m fresh True ex by simp
  qed
qed

lemma santize_inv:
  assumes "memo_inv memo" and "santizeLookupName linfo memo lookup isgpos = Inr (memo', name)"
  shows "memo_inv memo'"
proof (cases "map_of memo lookup")
  case (Some n)
  with assms show ?thesis by (simp add: santizeLookupName_def)
next
  case None
  from santize_new[OF assms(2) None] have m: "memo' = memo @ [(lookup, name)]"
    and f: "name \<notin> snd ` set memo" by auto
  from None have "lookup \<notin> fst ` set memo" by (simp add: map_of_eq_None_iff)
  with assms(1) m f show ?thesis by (auto simp: memo_inv_def)
qed

lemma sanitize_all_inv:
  "sanitize_all linfo memo calls = Inr memo' \<Longrightarrow> memo_inv memo \<Longrightarrow> memo_inv memo'"
proof (induction calls arbitrary: memo)
  case Nil
  then show ?case by simp
next
  case (Cons c calls)
  obtain l g where c: "c = (l, g)" by (cases c)
  from Cons.prems(1) c obtain m1 n where s: "santizeLookupName linfo memo l g = Inr (m1, n)"
    and r: "sanitize_all linfo m1 calls = Inr memo'"
    by (auto split: sum.splits)
  from Cons.IH[OF r santize_inv[OF Cons.prems(2) s]] show ?case .
qed

text \<open>
  Claim C5, as amended. In a state of the memo reached from the empty memo by calls of
  \<open>_santizeLookupName\<close>, one more call files the name it returns under the lookup, changes
  no name filed before, and leaves the memo injective: no two lookups share a name. A
  lookup already in the memo gets its memoized name. A new lookup gets its base name when
  no lookup holds it: the raw name without a digit in its first position, restricted to
  the characters \<open>[A-Za-z0-9._]\<close>, cut to 63 characters. Otherwise it gets
  \<open>pos\<close> or \<open>sub\<close>, the short kind, the feature and the script, and the first even number
  from 0 for which the name is free.
\<close>

theorem lookup_names_unique:
  assumes "sanitize_all linfo [] calls = Inr memo"
    and "santizeLookupName linfo memo lookup isgpos = Inr (memo', name)"
  shows "map_of memo' lookup = Some name \<and>
         (\<forall>l n. map_of memo l = Some n \<longrightarrow> map_of memo' l = Some n) \<and>
         (\<forall>l1 l2 n. map_of memo' l1 = Some n \<and> map_of memo' l2 = Some n \<longrightarrow> l1 = l2) \<and>
         (lookup \<in> fst ` set memo \<longrightarrow> memo' = memo) \<and>
         (lookup \<notin> fst ` set memo \<and> base_name lookup \<notin> snd ` set memo \<longrightarrow>
            name = base_name lookup) \<and>
         (lookup \<notin> fst ` set memo \<and> base_name lookup \<in> snd ` set memo \<longrightarrow>
            (\<exists>g kind flags fls feat script k.
               isgpos = Some g \<and> map_of linfo lookup = Some (kind, flags, fls) \<and>
               feat_script fls = Inr (feat, script) \<and>
               name = synth_stem g (short_kind kind) feat script @ dec (2 * k) \<and>
               name \<notin> snd ` set memo \<and>
               (\<forall>j<k. synth_stem g (short_kind kind) feat script @ dec (2 * j) \<in> snd ` set memo))) \<and>
         base_name lookup = take 63 (filter allowed_char (drop_digit0 lookup))"
proof -
  have inv: "memo_inv memo" using sanitize_all_inv[OF assms(1)] by (simp add: memo_inv_def)
  have inv': "memo_inv memo'" using santize_inv[OF inv assms(2)] .
  have inj: "\<forall>l1 l2 n. map_of memo' l1 = Some n \<and> map_of memo' l2 = Some n \<longrightarrow> l1 = l2"
    using memo_inv_inj[OF inv'] by blast
  show ?thesis
  proof (cases "map_of memo lookup")
    case (Some n)
    with assms(2) have eq: "memo' = memo" "name = n" by (simp_all add: santizeLookupName_def)
    from Some have k: "lookup \<in> fst ` set memo" by (metis domI dom_map_of_conv_image_fst)
    have 1: "map_of memo' lookup = Some name" using eq Some by simp
    have 2: "\<forall>l n. map_of memo l = Some n \<longrightarrow> map_of memo' l = Some n" using eq by simp
    show ?thesis
      apply (intro conjI)
      using 1 apply assumption
      using 2 apply assumption
      using inj apply assumption
      using eq apply simp
      using k apply simp
      using k apply simp
      by (rule base_name_filter)
  next
    case None
    then have nk: "lookup \<notin> fst ` set memo" by (simp add: map_of_eq_None_iff)
    note new = santize_new[OF assms(2) None]
    from new have m: "memo' = memo @ [(lookup, name)]" by simp
    have 1: "map_of memo' lookup = Some name" using m None by (simp add: map_add_def)
    have 2: "\<forall>l n. map_of memo l = Some n \<longrightarrow> map_of memo' l = Some n"
      using m by (auto simp: map_add_def)
    have 5: "lookup \<notin> fst ` set memo \<and> base_name lookup \<notin> snd ` set memo \<longrightarrow>
            name = base_name lookup" using new by blast
    have fresh: "name \<notin> snd ` set memo" using new by blast
    have 6: "lookup \<notin> fst ` set memo \<and> base_name lookup \<in> snd ` set memo \<longrightarrow>
            (\<exists>g kind flags fls feat script k.
               isgpos = Some g \<and> map_of linfo lookup = Some (kind, flags, fls) \<and>
               feat_script fls = Inr (feat, script) \<and>
               name = synth_stem g (short_kind kind) feat script @ dec (2 * k) \<and>
               name \<notin> snd ` set memo \<and>
               (\<forall>j<k. synth_stem g (short_kind kind) feat script @ dec (2 * j) \<in> snd ` set memo))"
    proof
      assume "lookup \<notin> fst ` set memo \<and> base_name lookup \<in> snd ` set memo"
      with new obtain g kind flags fls feat script k where
        "isgpos = Some g" "map_of linfo lookup = Some (kind, flags, fls)"
        "feat_script fls = Inr (feat, script)"
        "name = synth_stem g (short_kind kind) feat script @ dec (2 * k)"
        "\<forall>j<k. synth_stem g (short_kind kind) feat script @ dec (2 * j) \<in> snd ` set memo"
        by blast
      with fresh show "\<exists>g kind flags fls feat script k.
               isgpos = Some g \<and> map_of linfo lookup = Some (kind, flags, fls) \<and>
               feat_script fls = Inr (feat, script) \<and>
               name = synth_stem g (short_kind kind) feat script @ dec (2 * k) \<and>
               name \<notin> snd ` set memo \<and>
               (\<forall>j<k. synth_stem g (short_kind kind) feat script @ dec (2 * j) \<in> snd ` set memo)"
        by blast
    qed
    show ?thesis
      apply (intro conjI)
      using 1 apply assumption
      using 2 apply assumption
      using inj apply assumption
      using nk apply simp
      using 5 apply assumption
      using 6 apply assumption
      by (rule base_name_filter)
  qed
qed

text \<open>
  Claim C5 as stated fails on the raw name \<open>12a\<close>: only a digit in the first position of
  the raw name is dropped, so the sanitized name is \<open>2a\<close>, where dropping the leading
  digits gives \<open>a\<close>.
\<close>

theorem leading_digits_not_all_dropped:
  "santizeLookupName [] [] ''12a'' (Some False) = Inr ([(''12a'', ''2a'')], ''2a'') \<and>
   spec_lookup_name ''12a'' = ''a''"
  by code_simp

theorem lookup_names_unique_witness:
  "santizeLookupName linfo0 [(''a b'', ''ab'')] ''a-b'' (Some False)
     = Inr ([(''a b'', ''ab''), (''a-b'', ''sub_ligature_ligalatn_0'')], ''sub_ligature_ligalatn_0'') \<and>
   map_of [(''a b'', ''ab''), (''a-b'', ''sub_ligature_ligalatn_0'')] ''a b'' = Some ''ab'' \<and>
   base_name ''a-b'' = ''ab''"
proof -
  have run: "sanitize_all linfo0 [] [(''a b'', Some False)] = Inr [(''a b'', ''ab'')]" by code_simp
  have step: "santizeLookupName linfo0 [(''a b'', ''ab'')] ''a-b'' (Some False)
     = Inr ([(''a b'', ''ab''), (''a-b'', ''sub_ligature_ligalatn_0'')], ''sub_ligature_ligalatn_0'')"
    by code_simp
  have old: "map_of [(''a b'', ''ab'')] ''a b'' = Some ''ab''" by simp
  have b: "base_name ''a-b'' = ''ab''" by code_simp
  from lookup_names_unique[OF run step] old
  have "map_of [(''a b'', ''ab''), (''a-b'', ''sub_ligature_ligalatn_0'')] ''a b'' = Some ''ab''"
    by blast
  with step b show ?thesis by simp
qed

section \<open>Properties of the feature writer\<close>

lemma pruneSubtables_filter: "pruneSubtables st subs g = filter (survives st) subs"
proof (induction subs)
  case Nil
  show ?case by simp
next
  case (Cons sub subs)
  have "list_ex (\<lambda>g. sub \<in> fst ` set (snd g)) (glyphPosSub st) =
        (\<exists>g frags. (g, frags) \<in> set (glyphPosSub st) \<and> sub \<in> fst ` set frags)"
    by (simp add: list_ex_iff) (metis prod.collapse snd_conv)
  with Cons show ?case by (simp add: survives_def)
qed

lemma santize_lookup:
  assumes "santizeLookupName linfo memo l g = Inr (memo', n)"
  shows "map_of memo' l = Some n \<and> (\<forall>k v. map_of memo k = Some v \<longrightarrow> map_of memo' k = Some v)"
proof (cases "map_of memo l")
  case (Some v)
  with assms show ?thesis by (simp add: santizeLookupName_def)
next
  case None
  from santize_new[OF assms None] have m: "memo' = memo @ [(l, n)]" by simp
  with None show ?thesis by (auto simp: map_add_def)
qed

lemma sanitize_all_dom:
  "sanitize_all linfo memo calls = Inr memo' \<Longrightarrow>
   (\<forall>c\<in>set calls. \<exists>n. map_of memo' (fst c) = Some n) \<and>
   (\<forall>k v. map_of memo k = Some v \<longrightarrow> map_of memo' k = Some v)"
proof (induction calls arbitrary: memo)
  case Nil
  then show ?case by simp
next
  case (Cons c calls)
  obtain l g where c: "c = (l, g)" by (cases c)
  from Cons.prems c obtain m1 n where s: "santizeLookupName linfo memo l g = Inr (m1, n)"
    and r: "sanitize_all linfo m1 calls = Inr memo'"
    by (auto split: sum.splits)
  note ih = Cons.IH[OF r]
  note st = santize_lookup[OF s]
  from st ih have "map_of memo' l = Some n" by blast
  moreover from st ih have "\<forall>k v. map_of memo k = Some v \<longrightarrow> map_of memo' k = Some v" by blast
  ultimately show ?case using ih c by auto
qed

lemma mapM_set:
  "mapM f xs = Inr ys \<Longrightarrow> y \<in> set ys \<Longrightarrow> \<exists>x\<in>set xs. f x = Inr y"
proof (induction xs arbitrary: ys)
  case Nil
  then show ?case by simp
next
  case (Cons x xs)
  from Cons.prems(1) obtain z zs where z: "f x = Inr z" and zs: "mapM f xs = Inr zs"
    and ys: "ys = z # zs"
    by (auto split: sum.splits)
  show ?case
  proof (cases "y = z")
    case True
    with z show ?thesis by auto
  next
    case False
    with Cons.prems(2) ys have "y \<in> set zs" by simp
    from Cons.IH[OF zs this] show ?thesis by auto
  qed
qed

lemma resolve_lookup_name:
  assumes "resolve_lookup linfo memo ls = Inr r"
  shows "fst r = fst ls \<and> map_of memo (fst ls) = Some (name_of r)"
proof -
  from assms obtain li where li: "map_of linfo (fst ls) = Some li"
    by (cases "map_of linfo (fst ls)") (simp_all add: resolve_lookup_def)
  with assms obtain m n where s: "santizeLookupName linfo memo (fst ls) None = Inr (m, n)"
    and r: "r = (fst ls, snd ls, li, n)"
    by (cases "santizeLookupName linfo memo (fst ls) None") (auto simp: resolve_lookup_def)
  from s have "map_of memo (fst ls) = Some n"
    by (cases "map_of memo (fst ls)") (simp_all add: santizeLookupName_def)
  with r show ?thesis by (simp add: name_of_def)
qed

lemma lookup_block_names:
  "(LookupBegin n \<in> set (lookup_block rb) \<or> LookupEnd n \<in> set (lookup_block rb) \<or>
    LookupRef n \<in> set (lookup_block rb)) \<Longrightarrow> n = name_of (fst rb)"
  by (auto simp: lookup_block_def)

lemma feature_lookups_names:
  "n \<in> set (feature_lookups rs f s l) \<Longrightarrow> n \<in> name_of ` set rs"
  by (auto simp: feature_lookups_def)

lemma build_features_names:
  assumes "f \<in> set (build_features rs)" "s \<in> set (snd f)" "l \<in> set (snd s)" "n \<in> set (snd l)"
  shows "n \<in> name_of ` set rs"
proof -
  from assms(1) obtain feature where f: "snd f =
      filter (\<lambda>s. snd s \<noteq> [])
             (map (\<lambda>script.
                (script,
                 filter (\<lambda>l. snd l \<noteq> [])
                   (map (\<lambda>language. (language, feature_lookups rs feature script language))
                      (langSet rs script))))
                (scriptSet rs))"
    by (auto simp: build_features_def)
  from assms(2) f obtain script where s: "snd s =
      filter (\<lambda>l. snd l \<noteq> [])
                   (map (\<lambda>language. (language, feature_lookups rs feature script language))
                      (langSet rs script))"
    by auto
  from assms(3) s obtain language where "snd l = feature_lookups rs feature script language"
    by auto
  with assms(4) show ?thesis using feature_lookups_names by metis
qed

lemma feature_block_names:
  "(LookupBegin n \<in> set (feature_block f) \<or> LookupEnd n \<in> set (feature_block f) \<or>
    LookupRef n \<in> set (feature_block f)) \<Longrightarrow>
   \<exists>s\<in>set (snd f). \<exists>l\<in>set (snd s). n \<in> set (snd l)"
  by (auto simp: feature_block_def script_block_def language_block_def split: if_splits)

lemma survives_memo [simp]: "survives (st\<lparr>sanitizedLookupNames := m\<rparr>) = survives st"
  by (rule ext) (simp add: survives_def)

lemma tableLookups_memo [simp]:
  "tableLookups (st\<lparr>sanitizedLookupNames := m\<rparr>) g = tableLookups st g"
  by (simp add: tableLookups_def)

text \<open>
  One pass over a table: the memo stays free of repeated names, keeps the names it had, and
  names every lookup of the table; and a lookup statement of the output carries the name of
  a lookup of the table that kept a subtable.
\<close>

lemma pass_names:
  assumes run: "writeGSUBGPOS body st g = Inr (memo, out)"
    and inv: "memo_inv (sanitizedLookupNames st)"
  shows "memo_inv memo \<and>
         (\<forall>k v. map_of (sanitizedLookupNames st) k = Some v \<longrightarrow> map_of memo k = Some v) \<and>
         (\<forall>ls\<in>set (tableLookups st g). \<exists>n. map_of memo (fst ls) = Some n) \<and>
         (\<forall>n. LookupBegin n \<in> set (emitted out) \<or> LookupEnd n \<in> set (emitted out) \<or>
               LookupRef n \<in> set (emitted out) \<longrightarrow>
               (\<exists>ls\<in>set (tableLookups st g).
                  py_any (pruneSubtables st (snd ls) g) \<and> map_of memo (fst ls) = Some n))"
proof -
  let ?calls = "map (\<lambda>ls. (fst ls, Some g)) (tableLookups st g)"
  let ?lookups = "filter (\<lambda>ls. py_any (pruneSubtables st (snd ls) g)) (tableLookups st g)"
  from run obtain memo1 where
    san: "sanitize_all (lookupInfo st) (sanitizedLookupNames st) ?calls = Inr memo1"
    by (cases "sanitize_all (lookupInfo st) (sanitizedLookupNames st) ?calls")
       (simp_all add: writeGSUBGPOS_def)
  have inv1: "memo_inv memo1" using sanitize_all_inv[OF san inv] .
  note dom = sanitize_all_dom[OF san]
  have keys: "\<forall>ls\<in>set (tableLookups st g). \<exists>n. map_of memo1 (fst ls) = Some n"
    using dom by force
  have ext: "\<forall>k v. map_of (sanitizedLookupNames st) k = Some v \<longrightarrow> map_of memo1 k = Some v"
    using dom by blast
  show ?thesis
  proof (cases "?lookups = []")
    case True
    with run san have "memo = memo1" "out = None"
      by (simp_all add: writeGSUBGPOS_def)
    with inv1 keys ext show ?thesis by (simp add: emitted_def)
  next
    case False
    with run san obtain rs where
      rs: "mapM (resolve_lookup (lookupInfo st) memo1) ?lookups = Inr rs"
      by (cases "mapM (resolve_lookup (lookupInfo st) memo1) ?lookups")
         (simp_all add: writeGSUBGPOS_def Let_def)
    let ?bf = "\<lambda>r. case body (fst r) (fst (snd r)) of Inl e \<Rightarrow> Inl e | Inr b \<Rightarrow> Inr (r, b)"
    from run san False rs obtain blocks where blocks: "mapM ?bf rs = Inr blocks"
      by (cases "mapM ?bf rs") (simp_all add: writeGSUBGPOS_def Let_def)
    from run san False rs blocks have m: "memo = memo1"
      and out: "emitted out = [Raw (''# '' @ (if g then ''GPOS'' else ''GSUB'') @ '' ''), Raw []] @
                                   concat (map lookup_block blocks) @
                                   concat (map feature_block (build_features rs)) @
                                   [Raw []]"
      by (auto simp: writeGSUBGPOS_def Let_def emitted_def)
    have rs_kept: "\<exists>ls\<in>set (tableLookups st g).
                  py_any (pruneSubtables st (snd ls) g) \<and> map_of memo1 (fst ls) = Some (name_of r)"
      if "r \<in> set rs" for r
    proof -
      from mapM_set[OF rs that] obtain ls where ls: "ls \<in> set ?lookups"
        and res: "resolve_lookup (lookupInfo st) memo1 ls = Inr r" by blast
      from resolve_lookup_name[OF res] have "map_of memo1 (fst ls) = Some (name_of r)" by simp
      with ls show ?thesis by auto
    qed
    have blk: "fst rb \<in> set rs" if "rb \<in> set blocks" for rb
    proof -
      from mapM_set[OF blocks that] obtain r where "r \<in> set rs" and "?bf r = Inr rb" by blast
      then show ?thesis by (auto split: sum.splits)
    qed
    have names: "n \<in> name_of ` set rs"
      if "LookupBegin n \<in> set (emitted out) \<or> LookupEnd n \<in> set (emitted out) \<or>
          LookupRef n \<in> set (emitted out)" for n
    proof -
      from that out consider
          rb where "rb \<in> set blocks"
            "LookupBegin n \<in> set (lookup_block rb) \<or> LookupEnd n \<in> set (lookup_block rb) \<or>
             LookupRef n \<in> set (lookup_block rb)"
        | f where "f \<in> set (build_features rs)"
            "LookupBegin n \<in> set (feature_block f) \<or> LookupEnd n \<in> set (feature_block f) \<or>
             LookupRef n \<in> set (feature_block f)"
        by auto
      then show ?thesis
      proof cases
        case 1
        from lookup_block_names[OF 1(2)] blk[OF 1(1)] show ?thesis by simp
      next
        case 2
        from feature_block_names[OF 2(2)] obtain s l where
          "s \<in> set (snd f)" "l \<in> set (snd s)" "n \<in> set (snd l)" by blast
        from build_features_names[OF 2(1) this] show ?thesis .
      qed
    qed
    have kept: "\<forall>n. LookupBegin n \<in> set (emitted out) \<or> LookupEnd n \<in> set (emitted out) \<or>
               LookupRef n \<in> set (emitted out) \<longrightarrow>
               (\<exists>ls\<in>set (tableLookups st g).
                  py_any (pruneSubtables st (snd ls) g) \<and> map_of memo1 (fst ls) = Some n)"
    proof (intro allI impI)
      fix n
      assume "LookupBegin n \<in> set (emitted out) \<or> LookupEnd n \<in> set (emitted out) \<or>
               LookupRef n \<in> set (emitted out)"
      from names[OF this] obtain r where "r \<in> set rs" "n = name_of r" by auto
      with rs_kept show "\<exists>ls\<in>set (tableLookups st g).
                  py_any (pruneSubtables st (snd ls) g) \<and> map_of memo1 (fst ls) = Some n"
        by blast
    qed
    show ?thesis using inv1 ext keys kept m by simp
  qed
qed

text \<open>
  Claim C7. \<open>parse\<close> writes the GSUB table and then the GPOS table, the second pass starting
  from the names the first one memoized. A lookup of either table none of whose subtables
  survives is pruned (\<open>_pruneSubtables\<close> returns the empty list for it), and its sanitized
  name is absent from everything the two passes emit: no \<open>lookup name {\<close> statement, no
  closing \<open>} name;\<close> statement and no \<open>lookup name;\<close> reference of a feature block carries
  it. Should the other table hold a lookup of the same name, that one has to be without a
  surviving subtable as well, the two sharing one sanitized name. The memo holds no name
  twice, as in every state the parser reaches.
\<close>

theorem pruned_lookup_absent:
  assumes "writeTables subs poss st = Inr (memo, stmts)"
    and "memo_inv (sanitizedLookupNames st)"
    and "(lookup, subtables) \<in> set (tableLookups st isgpos)"
    and "\<forall>g other. (lookup, other) \<in> set (tableLookups st g) \<longrightarrow>
           (\<forall>sub\<in>set other. \<not> survives st sub)"
  shows "pruneSubtables st subtables isgpos = [] \<and>
         (\<exists>name. map_of memo lookup = Some name \<and>
            LookupBegin name \<notin> set stmts \<and> LookupEnd name \<notin> set stmts \<and>
            LookupRef name \<notin> set stmts)"
proof -
  from assms(1) obtain memo1 gsub where
    p1: "writeGSUBGPOS subs st False = Inr (memo1, gsub)"
    by (cases "writeGSUBGPOS subs st False") (auto simp: writeTables_def)
  let ?st1 = "st\<lparr>sanitizedLookupNames := memo1\<rparr>"
  from assms(1) p1 obtain gpos where
    p2: "writeGSUBGPOS poss ?st1 True = Inr (memo, gpos)"
    and stmts: "stmts = emitted gsub @ emitted gpos"
    by (cases "writeGSUBGPOS poss ?st1 True") (auto simp: writeTables_def)
  note n1 = pass_names[OF p1 assms(2)]
  from n1 have inv1: "memo_inv (sanitizedLookupNames ?st1)" by simp
  note n2 = pass_names[OF p2 inv1]
  from n2 have inv2: "memo_inv memo" by blast
  have ext: "\<forall>k v. map_of memo1 k = Some v \<longrightarrow> map_of memo k = Some v"
    using n2 by simp
  have pruned: "pruneSubtables st other g = []"
    if "(lookup, other) \<in> set (tableLookups st g)" for other g
    using assms(4) that by (simp add: pruneSubtables_filter)
  obtain name where name: "map_of memo lookup = Some name"
  proof (cases isgpos)
    case True
    with n2 assms(3) have "\<exists>n. map_of memo lookup = Some n" by force
    then show ?thesis using that by blast
  next
    case False
    with n1 assms(3) have "\<exists>n. map_of memo1 lookup = Some n" by force
    with ext have "\<exists>n. map_of memo lookup = Some n" by blast
    then show ?thesis using that by blast
  qed
  have no1: "\<not> (LookupBegin name \<in> set (emitted gsub) \<or> LookupEnd name \<in> set (emitted gsub) \<or>
               LookupRef name \<in> set (emitted gsub))"
  proof
    assume "LookupBegin name \<in> set (emitted gsub) \<or> LookupEnd name \<in> set (emitted gsub) \<or>
               LookupRef name \<in> set (emitted gsub)"
    with n1 obtain ls where ls: "ls \<in> set (tableLookups st False)"
      and kept: "py_any (pruneSubtables st (snd ls) False)"
      and nm: "map_of memo1 (fst ls) = Some name" by blast
    from nm ext have "map_of memo (fst ls) = Some name" by blast
    from memo_inv_inj[OF inv2 this name] have "fst ls = lookup" .
    with ls have "(lookup, snd ls) \<in> set (tableLookups st False)" by (metis prod.collapse)
    from pruned[OF this] kept show False by (simp add: py_any_def)
  qed
  have no2: "\<not> (LookupBegin name \<in> set (emitted gpos) \<or> LookupEnd name \<in> set (emitted gpos) \<or>
               LookupRef name \<in> set (emitted gpos))"
  proof
    assume "LookupBegin name \<in> set (emitted gpos) \<or> LookupEnd name \<in> set (emitted gpos) \<or>
               LookupRef name \<in> set (emitted gpos)"
    with n2 obtain ls where ls: "ls \<in> set (tableLookups ?st1 True)"
      and kept: "py_any (pruneSubtables ?st1 (snd ls) True)"
      and nm: "map_of memo (fst ls) = Some name" by blast
    from memo_inv_inj[OF inv2 nm name] have "fst ls = lookup" .
    with ls have "(lookup, snd ls) \<in> set (tableLookups st True)"
      by (metis prod.collapse tableLookups_memo)
    from pruned[OF this] kept show False by (simp add: py_any_def pruneSubtables_filter)
  qed
  show ?thesis using pruned[OF assms(3)] name no1 no2 stmts by auto
qed

theorem pruned_lookup_absent_witness:
  "\<exists>memo stmts.
      writeTables (\<lambda>l ss. Inr [''    sub x by y;'']) (\<lambda>l ss. Inr [''  pos base x;'']) fst0
        = Inr (memo, stmts) \<and>
      map_of memo ''Single 1'' = Some ''Single1'' \<and>
      LookupBegin ''Liga1'' \<in> set stmts \<and> LookupBegin ''Mark1'' \<in> set stmts \<and>
      LookupBegin ''Single1'' \<notin> set stmts \<and> LookupEnd ''Single1'' \<notin> set stmts \<and>
      LookupRef ''Single1'' \<notin> set stmts"
proof -
  let ?memo = "[(''Single 1'', ''Single1''), (''Liga 1'', ''Liga1''),
                (''Kern 1'', ''Kern1''), (''Mark 1'', ''Mark1'')]"
  let ?stmts = "[Raw ''# GSUB '', Raw [], Raw [], LookupBegin ''Liga1'',
       LookupFlag ''IgnoreMarks'', Rule ''    sub x by y;'',
       LookupEnd ''Liga1'', Raw [], FeatureBegin ''liga'', Raw [],
       Script ''DFLT'', Language ''dflt'', LookupRef ''Liga1'', Raw [],
       Script ''latn'', Language ''dflt'', LookupRef ''Liga1'',
       Language ''TRK '', LookupRef ''Liga1'', FeatureEnd ''liga'', Raw [],
       Raw ''# GPOS '', Raw [], Raw [], LookupBegin ''Mark1'',
       LookupFlag ''0'', Rule ''  pos base x;'', LookupEnd ''Mark1'',
       Raw [], FeatureBegin ''mark'', Raw [], Script ''latn'',
       Language ''dflt'', LookupRef ''Mark1'', FeatureEnd ''mark'',
       Raw []]"
  have run: "writeTables (\<lambda>l ss. Inr [''    sub x by y;'']) (\<lambda>l ss. Inr [''  pos base x;'']) fst0
        = Inr (?memo, ?stmts)"
    by code_simp
  have inv: "memo_inv (sanitizedLookupNames fst0)" by (simp add: memo_inv_def fst0_def)
  have mem: "(''Single 1'', [''Single 1-1'']) \<in> set (tableLookups fst0 False)"
    by (simp add: tableLookups_def fst0_def)
  have dead: "\<forall>g other. (''Single 1'', other) \<in> set (tableLookups fst0 g) \<longrightarrow>
                (\<forall>sub\<in>set other. \<not> survives fst0 sub)"
    by (auto simp: tableLookups_def fst0_def survives_def)
  have look: "map_of ?memo ''Single 1'' = Some ''Single1''" by simp
  from pruned_lookup_absent[OF run inv mem dead] look
  have "LookupBegin ''Single1'' \<notin> set ?stmts \<and> LookupEnd ''Single1'' \<notin> set ?stmts \<and>
        LookupRef ''Single1'' \<notin> set ?stmts"
    by auto
  moreover have "LookupBegin ''Liga1'' \<in> set ?stmts" "LookupBegin ''Mark1'' \<in> set ?stmts"
    by simp_all
  ultimately show ?thesis using run look by blast
qed

end

